theory Spec2Isabelle
  imports Main
begin

section \<open>Python primitives used by the helpers\<close>

text \<open>
  A Python \<^verbatim>\<open>str\<close> is a \<^typ>\<open>string\<close>; a Python \<^verbatim>\<open>int\<close> is an \<^typ>\<open>int\<close>.
  An exception is a value: \<^verbatim>\<open>except Exception\<close> catches every exception but those
  that derive from \<^verbatim>\<open>BaseException\<close> only (\<^verbatim>\<open>KeyboardInterrupt\<close>, \<^verbatim>\<open>SystemExit\<close>);
  a bare \<^verbatim>\<open>except:\<close> catches them all.
\<close>

datatype exn = IndexError | ValueError | Exception string | BaseException string

fun is_Exception :: "exn \<Rightarrow> bool" where
  "is_Exception (BaseException _) = False"
| "is_Exception _ = True"

text \<open>\<^verbatim>\<open>str(e)\<close> of an exception, as the f-strings of the notifications print it.\<close>

fun exn_str :: "exn \<Rightarrow> string" where
  "exn_str IndexError = ''list index out of range''"
| "exn_str ValueError = ''invalid literal for int() with base 10''"
| "exn_str (Exception msg) = msg"
| "exn_str (BaseException msg) = msg"

text \<open>
  \<^verbatim>\<open>s.split(sep)\<close> for a one-character separator: the pieces between the occurrences
  of the separator, empty pieces kept; the result is never the empty list
  (\<^verbatim>\<open>"".split("/") == [""]\<close>).
\<close>

fun split_on :: "char \<Rightarrow> string \<Rightarrow> string list" where
  "split_on c [] = [[]]"
| "split_on c (x # xs) =
     (if x = c then [] # split_on c xs
      else (case split_on c xs of
              w # ws \<Rightarrow> (x # w) # ws
            | [] \<Rightarrow> [[x]]))"

text \<open>\<^verbatim>\<open>s.startswith(p)\<close> and \<^verbatim>\<open>sub in s\<close>.\<close>

definition startswith :: "string \<Rightarrow> string \<Rightarrow> bool" where
  "startswith s p = (take (length p) s = p)"

fun contains :: "string \<Rightarrow> string \<Rightarrow> bool" where
  "contains [] sub = (sub = [])"
| "contains (x # xs) sub = (startswith (x # xs) sub \<or> contains xs sub)"

text \<open>
  \<^verbatim>\<open>int(s)\<close> on a string, base 10: surrounding white space is stripped, one sign is
  allowed, then decimal digits, where single underscores may stand between two digits.
  Anything else raises \<^verbatim>\<open>ValueError\<close> (here: \<open>None\<close>).
\<close>

definition is_digit :: "char \<Rightarrow> bool" where
  "is_digit c = (48 \<le> (of_char c :: nat) \<and> (of_char c :: nat) \<le> 57)"

definition digit_val :: "char \<Rightarrow> nat" where
  "digit_val c = of_char c - 48"

definition is_space :: "char \<Rightarrow> bool" where
  "is_space c = ((9 \<le> (of_char c :: nat) \<and> (of_char c :: nat) \<le> 13)
                 \<or> (28 \<le> (of_char c :: nat) \<and> (of_char c :: nat) \<le> 32))"

definition strip :: "string \<Rightarrow> string" where
  "strip s = rev (dropWhile is_space (rev (dropWhile is_space s)))"

fun parse_digits :: "bool \<Rightarrow> nat \<Rightarrow> string \<Rightarrow> nat option" where
  "parse_digits prev acc [] = (if prev then Some acc else None)"
| "parse_digits prev acc (c # cs) =
     (if is_digit c then parse_digits True (10 * acc + digit_val c) cs
      else if c = CHR ''_'' \<and> prev then parse_digits False acc cs
      else None)"

definition py_int :: "string \<Rightarrow> int option" where
  "py_int s =
     (case strip s of
        [] \<Rightarrow> None
      | c # cs \<Rightarrow>
          if c = CHR ''+'' then map_option int (parse_digits False 0 cs)
          else if c = CHR ''-'' then map_option (\<lambda>n. - int n) (parse_digits False 0 cs)
          else map_option int (parse_digits False 0 (c # cs)))"

text \<open>\<^verbatim>\<open>str(n)\<close> of a non-negative integer, as an f-string formats a counter.\<close>

definition digit_char :: "nat \<Rightarrow> char" where
  "digit_char d = ''0123456789'' ! d"

fun str_nat :: "nat \<Rightarrow> string" where
  "str_nat n =
     (if n < 10 then [digit_char n] else str_nat (n div 10) @ [digit_char (n mod 10)])"

declare str_nat.simps [simp del]

text \<open>
  \<^verbatim>\<open>os.path.join(a, b)\<close> on POSIX: an absolute second part replaces the first, otherwise
  the parts are joined with one separator unless the first is empty or ends with one.
  \<^verbatim>\<open>os.path.join(a, b, c)\<close> is \<^verbatim>\<open>join(join(a, b), c)\<close>.
\<close>

definition path_join :: "string \<Rightarrow> string \<Rightarrow> string" where
  "path_join a b =
     (if startswith b ''/'' then b
      else if a = [] \<or> last a = CHR ''/'' then a @ b
      else a @ ''/'' @ b)"

text \<open>
  \<^verbatim>\<open>x or y\<close> where \<open>x\<close> is an optional path: \<^verbatim>\<open>None\<close> and the empty string are falsy.
\<close>

definition py_or :: "string option \<Rightarrow> string \<Rightarrow> string" where
  "py_or x y = (case x of None \<Rightarrow> y | Some p \<Rightarrow> if p = [] then y else p)"

section \<open>helpers/data\_backend/aws.py: the S3 data backend\<close>

text \<open>
  \<^verbatim>\<open>_convert_path_to_key\<close>: \<^verbatim>\<open>return path.split("/")[-1]\<close>. The split is never empty,
  so the index \<^verbatim>\<open>[-1]\<close> never raises.
\<close>

definition convert_path_to_key :: "string \<Rightarrow> string" where
  "convert_path_to_key path = last (split_on (CHR ''/'') path)"

text \<open>
  The boto3 client over an in-memory bucket: the objects by key, and the requests
  received so far, each with the key it was sent. Every call takes the transient fault
  (if any) that the service answers this call with. \<^verbatim>\<open>head_object\<close> and
  \<^verbatim>\<open>get_object\<close> raise a client error for a key the bucket does not hold;
  \<^verbatim>\<open>delete_object\<close> of such a key succeeds.
\<close>

datatype request =
  HeadObject string | GetObject string | PutObject string string | DeleteObject string

record s3_client =
  objects :: "string \<rightharpoonup> string"
  requests :: "request list"

definition head_object ::
  "exn option \<Rightarrow> string \<Rightarrow> s3_client \<Rightarrow> (exn + unit) \<times> s3_client" where
  "head_object fault key c =
     (let c' = c\<lparr>requests := requests c @ [HeadObject key]\<rparr> in
      case fault of
        Some e \<Rightarrow> (Inl e, c')
      | None \<Rightarrow>
          (case objects c key of
             None \<Rightarrow> (Inl (Exception ''ClientError: 404 Not Found''), c')
           | Some body \<Rightarrow> (Inr (), c')))"

definition get_object ::
  "exn option \<Rightarrow> string \<Rightarrow> s3_client \<Rightarrow> (exn + string) \<times> s3_client" where
  "get_object fault key c =
     (let c' = c\<lparr>requests := requests c @ [GetObject key]\<rparr> in
      case fault of
        Some e \<Rightarrow> (Inl e, c')
      | None \<Rightarrow>
          (case objects c key of
             None \<Rightarrow> (Inl (Exception ''ClientError: NoSuchKey''), c')
           | Some body \<Rightarrow> (Inr body, c')))"

definition put_object ::
  "exn option \<Rightarrow> string \<Rightarrow> string \<Rightarrow> s3_client \<Rightarrow> (exn + unit) \<times> s3_client" where
  "put_object fault key body c =
     (let c' = c\<lparr>requests := requests c @ [PutObject key body]\<rparr> in
      case fault of
        Some e \<Rightarrow> (Inl e, c')
      | None \<Rightarrow> (Inr (), c'\<lparr>objects := (objects c)(key \<mapsto> body)\<rparr>))"

definition delete_object ::
  "exn option \<Rightarrow> string \<Rightarrow> s3_client \<Rightarrow> (exn + unit) \<times> s3_client" where
  "delete_object fault key c =
     (let c' = c\<lparr>requests := requests c @ [DeleteObject key]\<rparr> in
      case fault of
        Some e \<Rightarrow> (Inl e, c')
      | None \<Rightarrow> (Inr (), c'\<lparr>objects := (objects c)(key := None)\<rparr>))"

text \<open>
  \<^verbatim>\<open>S3DataBackend.exists\<close>: the bare \<^verbatim>\<open>except:\<close> turns every exception of the
  \<^verbatim>\<open>head_object\<close> call into \<^verbatim>\<open>False\<close>.
\<close>

definition exists :: "exn option \<Rightarrow> string \<Rightarrow> s3_client \<Rightarrow> bool \<times> s3_client" where
  "exists fault s3_key c =
     (case head_object fault (convert_path_to_key s3_key) c of
        (Inr u, c') \<Rightarrow> (True, c')
      | (Inl e, c') \<Rightarrow> (False, c'))"

text \<open>\<^verbatim>\<open>read\<close>, \<^verbatim>\<open>write\<close> and \<^verbatim>\<open>delete\<close>: one client call each, its exception propagated.\<close>

definition read :: "exn option \<Rightarrow> string \<Rightarrow> s3_client \<Rightarrow> (exn + string) \<times> s3_client" where
  "read fault s3_key c = get_object fault (convert_path_to_key s3_key) c"

definition write_s3 ::
  "exn option \<Rightarrow> string \<Rightarrow> string \<Rightarrow> s3_client \<Rightarrow> (exn + unit) \<times> s3_client" where
  "write_s3 fault s3_key data c = put_object fault (convert_path_to_key s3_key) data c"

definition delete_s3 ::
  "exn option \<Rightarrow> string \<Rightarrow> s3_client \<Rightarrow> (exn + unit) \<times> s3_client" where
  "delete_s3 fault s3_key c = delete_object fault (convert_path_to_key s3_key) c"

text \<open>
  \<^verbatim>\<open>write_batch\<close>. A payload is \<^verbatim>\<open>bytes\<close> or a \<^verbatim>\<open>str\<close>; a \<^typ>\<open>string\<close> is a list of
  bytes, so a \<^verbatim>\<open>str\<close> is held as its UTF-8 bytes and encoding returns them.
  The inner \<^verbatim>\<open>upload_to_s3\<close> passes \<^verbatim>\<open>Key=s3_key\<close> as it received it.
  \<^verbatim>\<open>executor.map\<close> pairs the two sequences up to the shorter one; the results are
  never read, so an exception of an item stays in its future and the other items run.
  The items are run here in the order of the sequences (the pool may run them in any order).
\<close>

datatype payload = Bytes string | Str string

definition encode_utf8 :: "string \<Rightarrow> string" where
  "encode_utf8 s = s"

definition upload_to_s3 ::
  "exn option \<Rightarrow> string \<Rightarrow> payload \<Rightarrow> s3_client \<Rightarrow> (exn + unit) \<times> s3_client" where
  "upload_to_s3 fault s3_key data c =
     (let body = (case data of Str s \<Rightarrow> encode_utf8 s | Bytes b \<Rightarrow> b)
      in put_object fault s3_key body c)"

fun write_batch_from ::
  "(nat \<Rightarrow> exn option) \<Rightarrow> nat \<Rightarrow> string list \<Rightarrow> payload list \<Rightarrow> s3_client \<Rightarrow> s3_client" where
  "write_batch_from faults i (k # ks) (d # ds) c =
     write_batch_from faults (Suc i) ks ds (snd (upload_to_s3 (faults i) k d c))"
| "write_batch_from faults i ks ds c = c"

definition write_batch ::
  "(nat \<Rightarrow> exn option) \<Rightarrow> string list \<Rightarrow> payload list \<Rightarrow> s3_client \<Rightarrow> s3_client" where
  "write_batch faults s3_keys data_list c = write_batch_from faults 0 s3_keys data_list c"

text \<open>
  A history of calls on the backend from a new, empty bucket; each call comes with the
  faults the service answers it with (a single call reads the fault at index 0, a batch
  the fault of each item). The keys of the \<^verbatim>\<open>put_object\<close> requests a client received
  are the remote keys that were ever written.
\<close>

datatype call =
  Exists string
| Read string
| Write string string
| Delete string
| WriteBatch "string list" "payload list"

fun run_call :: "(nat \<Rightarrow> exn option) \<Rightarrow> call \<Rightarrow> s3_client \<Rightarrow> s3_client" where
  "run_call faults (Exists k) c = snd (exists (faults 0) k c)"
| "run_call faults (Read k) c = snd (read (faults 0) k c)"
| "run_call faults (Write k d) c = snd (write_s3 (faults 0) k d c)"
| "run_call faults (Delete k) c = snd (delete_s3 (faults 0) k c)"
| "run_call faults (WriteBatch ks ds) c = write_batch faults ks ds c"

fun run_calls :: "((nat \<Rightarrow> exn option) \<times> call) list \<Rightarrow> s3_client \<Rightarrow> s3_client" where
  "run_calls [] c = c"
| "run_calls ((faults, x) # rest) c = run_calls rest (run_call faults x c)"

definition new_bucket :: s3_client where
  "new_bucket = \<lparr>objects = Map.empty, requests = []\<rparr>"

fun put_keys :: "request list \<Rightarrow> string list" where
  "put_keys [] = []"
| "put_keys (PutObject key body # rest) = key # put_keys rest"
| "put_keys (r # rest) = put_keys rest"

section \<open>helpers/publishing/huggingface.py: the hub manager\<close>

text \<open>
  The fields of \<^verbatim>\<open>HubManager\<close> and of its configuration that the uploads read:
  \<^verbatim>\<open>config.model_type\<close>, \<^verbatim>\<open>config.output_dir\<close>, \<^verbatim>\<open>repo_id\<close> and the \<^verbatim>\<open>_repo_id\<close> that
  \<^verbatim>\<open>create_repo\<close> returned.
\<close>

record hub_manager =
  model_type :: string
  output_dir :: string
  repo_id :: string
  created_repo_id :: string

text \<open>
  The calls that leave the manager, in the order they happen, each with what it
  answered: a message sent through the webhook handler, the model card written by
  \<^verbatim>\<open>save_model_card\<close> (its \<^verbatim>\<open>repo_folder\<close>), an image saved to a local path, a file
  uploaded (\<^verbatim>\<open>path_in_repo\<close>, \<^verbatim>\<open>path_or_fileobj\<close>), a folder uploaded (\<^verbatim>\<open>folder_path\<close>).
  Commit messages and the repository id of an upload are not recorded.
\<close>

datatype event =
  Send string
| SaveModelCard string "exn option"
| ImageSave string string "exn option"
| UploadFile string string "exn option"
| UploadFolder string "exn option"

text \<open>
  What the outside answers: whether writing the model card raises, whether saving an
  image to a path raises, and, like a mock of the hub, what the \<open>n\<close>-th call of
  \<^verbatim>\<open>upload_file\<close> for a \<^verbatim>\<open>path_in_repo\<close> and the \<open>n\<close>-th call of \<^verbatim>\<open>upload_folder\<close> raise
  (\<open>None\<close>: the call succeeds). Sending a notification does not raise.
\<close>

record hub_env =
  card_outcome :: "exn option"
  image_save_outcome :: "string \<Rightarrow> exn option"
  upload_file_outcome :: "string \<Rightarrow> nat \<Rightarrow> exn option"
  upload_folder_outcome :: "nat \<Rightarrow> exn option"

definition raised :: "exn option \<Rightarrow> exn + unit" where
  "raised r = (case r of None \<Rightarrow> Inr () | Some e \<Rightarrow> Inl e)"

fun is_upload_of :: "string \<Rightarrow> event \<Rightarrow> bool" where
  "is_upload_of p (UploadFile q f r) = (q = p)"
| "is_upload_of p ev = False"

fun is_upload_folder :: "event \<Rightarrow> bool" where
  "is_upload_folder (UploadFolder f r) = True"
| "is_upload_folder ev = False"

definition send :: "bool \<Rightarrow> string \<Rightarrow> event list \<Rightarrow> event list" where
  "send webhook_handler message log = (if webhook_handler then log @ [Send message] else log)"

definition save_model_card :: "hub_env \<Rightarrow> string \<Rightarrow> event list \<Rightarrow> (exn + unit) \<times> event list" where
  "save_model_card env repo_folder log =
     (raised (card_outcome env), log @ [SaveModelCard repo_folder (card_outcome env)])"

definition image_save ::
  "hub_env \<Rightarrow> string \<Rightarrow> string \<Rightarrow> event list \<Rightarrow> (exn + unit) \<times> event list" where
  "image_save env img image_path log =
     (let r = image_save_outcome env image_path
      in (raised r, log @ [ImageSave img image_path r]))"

definition upload_file ::
  "hub_env \<Rightarrow> string \<Rightarrow> string \<Rightarrow> event list \<Rightarrow> (exn + unit) \<times> event list" where
  "upload_file env path_in_repo path_or_fileobj log =
     (let r = upload_file_outcome env path_in_repo (length (filter (is_upload_of path_in_repo) log))
      in (raised r, log @ [UploadFile path_in_repo path_or_fileobj r]))"

definition upload_folder :: "hub_env \<Rightarrow> string \<Rightarrow> event list \<Rightarrow> (exn + unit) \<times> event list" where
  "upload_folder env folder_path log =
     (let r = upload_folder_outcome env (length (filter is_upload_folder log))
      in (raised r, log @ [UploadFolder folder_path r]))"

text \<open>\<^verbatim>\<open>upload_full_model\<close> and \<^verbatim>\<open>upload_lora_model\<close>.\<close>

definition upload_full_model ::
  "hub_env \<Rightarrow> hub_manager \<Rightarrow> string option \<Rightarrow> event list \<Rightarrow> (exn + unit) \<times> event list" where
  "upload_full_model env m override_path log =
     (let folder_path = path_join (output_dir m) ''pipeline''
      in upload_folder env (py_or override_path folder_path) log)"

definition upload_lora_model ::
  "hub_env \<Rightarrow> hub_manager \<Rightarrow> string option \<Rightarrow> event list \<Rightarrow> (exn + unit) \<times> event list" where
  "upload_lora_model env m override_path log =
     (let lora_weights_path =
            path_join (py_or override_path (output_dir m)) ''pytorch_lora_weights.safetensors''
      in case upload_file env ''/pytorch_lora_weights.safetensors'' lora_weights_path log of
           (Inl e, log') \<Rightarrow> (Inl e, log')
         | (Inr u, log') \<Rightarrow>
             (let readme_path = path_join (py_or override_path (output_dir m)) ''README.md''
              in upload_file env ''/README.md'' readme_path log'))"

text \<open>
  The retry loop of \<^verbatim>\<open>upload_validation_images\<close> for one image: the \<^verbatim>\<open>try\<close> block has
  no \<^verbatim>\<open>break\<close>, so the loop goes on after an upload that succeeded. An exception that
  \<^verbatim>\<open>except Exception\<close> does not catch leaves the loop.
\<close>

definition image_error_message :: "nat \<Rightarrow> exn \<Rightarrow> string" where
  "image_error_message attempt e =
     ''(attempt '' @ str_nat attempt @ ''/3) Error uploading validation image to Hugging Face Hub: ''
       @ exn_str e @ ''. Retrying...''"

function image_upload_attempts ::
  "hub_env \<Rightarrow> bool \<Rightarrow> string \<Rightarrow> string \<Rightarrow> nat \<Rightarrow> event list \<Rightarrow> (exn + unit) \<times> event list" where
  "image_upload_attempts env webhook_handler path_in_repo image_path attempt log =
     (if attempt < 3 then
        (case upload_file env path_in_repo image_path log of
           (Inr u, log') \<Rightarrow>
             image_upload_attempts env webhook_handler path_in_repo image_path (attempt + 1) log'
         | (Inl e, log') \<Rightarrow>
             if is_Exception e then
               image_upload_attempts env webhook_handler path_in_repo image_path (attempt + 1)
                 (send webhook_handler (image_error_message (attempt + 1) e) log')
             else (Inl e, log'))
      else (Inr (), log))"
  by pat_completeness auto
termination
  by (relation "measure (\<lambda>(env, w, p, ip, attempt, log). 3 - attempt)") auto

declare image_upload_attempts.simps [simp del]

text \<open>
  \<^verbatim>\<open>upload_validation_images\<close>. The groups are the items of the dictionary (or the pairs
  of the list) in order; a group that is not a list is a single image. \<open>idx\<close> and
  \<open>sub_idx\<close> are both incremented in the body of the inner loop, once per image;
  \<open>sub_idx\<close> starts again at 0 for each group. The result carries \<open>idx\<close> on.
\<close>

datatype images = Single string | Images "string list"

fun images_list :: "images \<Rightarrow> string list" where
  "images_list (Single img) = [img]"
| "images_list (Images xs) = xs"

definition image_filename :: "nat \<Rightarrow> nat \<Rightarrow> string" where
  "image_filename idx sub_idx = ''image_'' @ str_nat idx @ ''_'' @ str_nat sub_idx @ ''.png''"

fun upload_group ::
  "hub_env \<Rightarrow> hub_manager \<Rightarrow> bool \<Rightarrow> string option \<Rightarrow> string list \<Rightarrow> nat \<Rightarrow> nat \<Rightarrow> event list
     \<Rightarrow> (exn + nat) \<times> event list" where
  "upload_group env m webhook_handler override_path [] idx sub_idx log = (Inr idx, log)"
| "upload_group env m webhook_handler override_path (img # rest) idx sub_idx log =
     (let image_path =
            path_join (path_join (py_or override_path (output_dir m)) ''assets'')
              (image_filename idx sub_idx)
      in case image_save env img image_path log of
           (Inl e, log1) \<Rightarrow> (Inl e, log1)
         | (Inr u, log1) \<Rightarrow>
             (case image_upload_attempts env webhook_handler
                     (''/assets/'' @ image_filename idx sub_idx) image_path 0 log1 of
                (Inl e, log2) \<Rightarrow> (Inl e, log2)
              | (Inr u, log2) \<Rightarrow>
                  upload_group env m webhook_handler override_path rest (idx + 1) (sub_idx + 1) log2))"

fun upload_groups ::
  "hub_env \<Rightarrow> hub_manager \<Rightarrow> bool \<Rightarrow> string option \<Rightarrow> (string \<times> images) list \<Rightarrow> nat \<Rightarrow> event list
     \<Rightarrow> (exn + unit) \<times> event list" where
  "upload_groups env m webhook_handler override_path [] idx log = (Inr (), log)"
| "upload_groups env m webhook_handler override_path ((shortname, imgs) # rest) idx log =
     (case upload_group env m webhook_handler override_path (images_list imgs) idx 0 log of
        (Inl e, log') \<Rightarrow> (Inl e, log')
      | (Inr idx', log') \<Rightarrow> upload_groups env m webhook_handler override_path rest idx' log')"

definition upload_validation_images ::
  "hub_env \<Rightarrow> hub_manager \<Rightarrow> (string \<times> images) list \<Rightarrow> bool \<Rightarrow> string option \<Rightarrow> event list
     \<Rightarrow> (exn + unit) \<times> event list" where
  "upload_validation_images env m validation_images webhook_handler override_path log =
     (if validation_images \<noteq> [] \<and> length validation_images > 0
      then upload_groups env m webhook_handler override_path validation_images 0 log
      else (Inr (), log))"

text \<open>
  The retry loop of \<^verbatim>\<open>upload_model\<close> for the weights: \<^verbatim>\<open>break\<close> after an upload that
  did not raise, a notification and the next attempt after one that raised.
\<close>

definition model_error_message :: "nat \<Rightarrow> exn \<Rightarrow> string" where
  "model_error_message attempt e =
     ''(attempt '' @ str_nat attempt @ ''/3) Error uploading model to Hugging Face Hub: ''
       @ exn_str e @ ''. Retrying...''"

function model_upload_attempts ::
  "hub_env \<Rightarrow> hub_manager \<Rightarrow> bool \<Rightarrow> string option \<Rightarrow> nat \<Rightarrow> event list
     \<Rightarrow> (exn + unit) \<times> event list" where
  "model_upload_attempts env m webhook_handler override_path attempt log =
     (if attempt < 3 then
        (case (if \<not> contains (model_type m) ''lora''
               then upload_full_model env m override_path log
               else upload_lora_model env m override_path log) of
           (Inr u, log') \<Rightarrow> (Inr (), log')
         | (Inl e, log') \<Rightarrow>
             if is_Exception e then
               model_upload_attempts env m webhook_handler override_path (attempt + 1)
                 (send webhook_handler (model_error_message (attempt + 1) e) log')
             else (Inl e, log'))
      else (Inr (), log))"
  by pat_completeness auto
termination
  by (relation "measure (\<lambda>(env, m, w, ov, attempt, log). 3 - attempt)") auto

declare model_upload_attempts.simps [simp del]

definition uploading_message :: "hub_manager \<Rightarrow> string option \<Rightarrow> string" where
  "uploading_message m override_path =
     ''Uploading '' @ (if override_path = None then ''model'' else ''intermediary checkpoint'')
       @ '' to Hugging Face Hub as `'' @ repo_id m @ ''`.''"

definition available_message :: "hub_manager \<Rightarrow> string" where
  "available_message m =
     ''Model is now available [on Hugging Face Hub](https://huggingface.co/''
       @ created_repo_id m @ '').''"

definition upload_model ::
  "hub_env \<Rightarrow> hub_manager \<Rightarrow> (string \<times> images) list \<Rightarrow> bool \<Rightarrow> string option \<Rightarrow> event list
     \<Rightarrow> (exn + unit) \<times> event list" where
  "upload_model env m validation_images webhook_handler override_path log =
     (let log0 = send webhook_handler (uploading_message m override_path) log;
          repo_folder =
            py_or override_path
              (path_join (output_dir m)
                 (if \<not> contains (model_type m) ''lora'' then ''pipeline'' else []))
      in case save_model_card env repo_folder log0 of
           (Inl e, log1) \<Rightarrow> (Inl e, log1)
         | (Inr u, log1) \<Rightarrow>
             (case upload_validation_images env m validation_images False override_path log1 of
                (Inl e, log2) \<Rightarrow> (Inl e, log2)
              | (Inr u, log2) \<Rightarrow>
                  (case model_upload_attempts env m webhook_handler override_path 0 log2 of
                     (Inl e, log3) \<Rightarrow> (Inl e, log3)
                   | (Inr u, log3) \<Rightarrow>
                       (Inr (), send webhook_handler (available_message m) log3))))"

text \<open>
  \<^verbatim>\<open>find_latest_checkpoint\<close>. The directory tree under \<^verbatim>\<open>output_dir\<close> is the list of
  its entries' paths, in the order the scan yields them; \<^verbatim>\<open>rglob("checkpoint-*")\<close>
  keeps those whose last component starts with \<^verbatim>\<open>checkpoint-\<close>. \<^verbatim>\<open>stem\<close> is the last
  component without its final suffix. The running maximum starts at 0 and a checkpoint
  replaces it when its value is strictly greater.
\<close>

fun rfind :: "char \<Rightarrow> string \<Rightarrow> nat option" where
  "rfind c [] = None"
| "rfind c (x # xs) =
     (case rfind c xs of
        Some i \<Rightarrow> Some (Suc i)
      | None \<Rightarrow> if x = c then Some 0 else None)"

definition path_name :: "string \<Rightarrow> string" where
  "path_name p = last (split_on (CHR ''/'') p)"

definition stem :: "string \<Rightarrow> string" where
  "stem p =
     (let name = path_name p in
      case rfind (CHR ''.'') name of
        None \<Rightarrow> name
      | Some i \<Rightarrow> if 0 < i \<and> i + 1 < length name then take i name else name)"

definition rglob_checkpoints :: "string list \<Rightarrow> string list" where
  "rglob_checkpoints tree = filter (\<lambda>p. startswith (path_name p) ''checkpoint-'') tree"

fun latest_of :: "string list \<Rightarrow> int \<Rightarrow> string option \<Rightarrow> exn + string option" where
  "latest_of [] highest_checkpoint_value highest_checkpoint = Inr highest_checkpoint"
| "latest_of (checkpoint # rest) highest_checkpoint_value highest_checkpoint =
     (let parts = split_on (CHR ''-'') (stem checkpoint) in
      case py_int (last parts) of
        None \<Rightarrow> Inl ValueError
      | Some checkpoint_value \<Rightarrow>
          if checkpoint_value > highest_checkpoint_value
          then latest_of rest checkpoint_value (Some checkpoint)
          else latest_of rest highest_checkpoint_value highest_checkpoint)"

definition find_latest_checkpoint :: "string list \<Rightarrow> exn + string option" where
  "find_latest_checkpoint tree =
     (let checkpoints = rglob_checkpoints tree in
      if length checkpoints > 0 then latest_of checkpoints 0 None else Inr None)"

definition upload_latest_checkpoint ::
  "hub_env \<Rightarrow> hub_manager \<Rightarrow> string list \<Rightarrow> (string \<times> images) list \<Rightarrow> bool \<Rightarrow> event list
     \<Rightarrow> (exn + unit) \<times> event list" where
  "upload_latest_checkpoint env m tree validation_images webhook_handler log =
     (case find_latest_checkpoint tree of
        Inl e \<Rightarrow> (Inl e, log)
      | Inr None \<Rightarrow> (Inr (), log)
      | Inr (Some checkpoint_path) \<Rightarrow>
          upload_model env m validation_images webhook_handler (Some checkpoint_path) log)"

section \<open>helpers/legacy/sd\_files.py: the checkpoint hooks\<close>

text \<open>
  The retention step of \<^verbatim>\<open>save_model_hook\<close>, the body run for each model of the full
  (not LoRA) path before that model is saved. \<open>listing\<close> is \<^verbatim>\<open>os.listdir(args.output_dir)\<close>,
  the names of the entries in any order. The sort key of a name is
  \<^verbatim>\<open>int(x.split("-")[1])\<close>: the \<^emph>\<open>second\<close> piece, \<^verbatim>\<open>IndexError\<close> without one. \<^verbatim>\<open>sorted\<close>
  computes the keys of all names first, in order, and is stable.
\<close>

definition checkpoint_key :: "string \<Rightarrow> exn + int" where
  "checkpoint_key x =
     (let parts = split_on (CHR ''-'') x in
      if length parts < 2 then Inl IndexError
      else (case py_int (parts ! 1) of None \<Rightarrow> Inl ValueError | Some v \<Rightarrow> Inr v))"

fun keyed :: "string list \<Rightarrow> exn + (int \<times> string) list" where
  "keyed [] = Inr []"
| "keyed (x # xs) =
     (case checkpoint_key x of
        Inl e \<Rightarrow> Inl e
      | Inr k \<Rightarrow> (case keyed xs of Inl e \<Rightarrow> Inl e | Inr ks \<Rightarrow> Inr ((k, x) # ks)))"

definition sorted_by_key :: "string list \<Rightarrow> exn + string list" where
  "sorted_by_key checkpoints =
     (case keyed checkpoints of
        Inl e \<Rightarrow> Inl e
      | Inr ks \<Rightarrow> Inr (map snd (sort_key fst ks)))"

text \<open>\<^verbatim>\<open>shutil.rmtree\<close> of an entry of the output directory takes its name off the listing.\<close>

definition rmtree :: "string \<Rightarrow> string list \<Rightarrow> string list" where
  "rmtree d listing = removeAll d listing"

text \<open>
  In the branch that removes, \<open>num_to_remove\<close> is at least 1, so the slice
  \<^verbatim>\<open>checkpoints[0:num_to_remove]\<close> is the first \<open>num_to_remove\<close> names (all of them when
  there are fewer).
\<close>

definition retention_step :: "int option \<Rightarrow> string list \<Rightarrow> exn + string list" where
  "retention_step checkpoints_total_limit listing =
     (case checkpoints_total_limit of
        None \<Rightarrow> Inr listing
      | Some limit \<Rightarrow>
          (case sorted_by_key (filter (\<lambda>d. startswith d ''checkpoint'') listing) of
             Inl e \<Rightarrow> Inl e
           | Inr checkpoints \<Rightarrow>
               if int (length checkpoints) \<ge> limit then
                 (let num_to_remove = int (length checkpoints) - limit + 1;
                      removing_checkpoints = take (nat num_to_remove) checkpoints
                  in Inr (fold rmtree removing_checkpoints listing))
               else Inr listing))"

text \<open>
  Saving into the new checkpoint directory makes its name an entry of the output
  directory (an entry of that name that is there already stays the only one).
\<close>

definition add_checkpoint :: "string \<Rightarrow> string list \<Rightarrow> string list" where
  "add_checkpoint d listing = (if d \<in> set listing then listing else listing @ [d])"

text \<open>
  \<^verbatim>\<open>load_model_hook\<close>. A model object has the class the hook tests with \<^verbatim>\<open>isinstance\<close>,
  a configuration and a state dictionary. The outside is: which paths exist, what
  \<^verbatim>\<open>StateTracker.load_training_state\<close> restores from a path, and what \<^verbatim>\<open>from_pretrained\<close>
  loads from a directory and subfolder (configuration and state dictionary), each of
  which may raise; and whether \<^verbatim>\<open>model.register_to_config\<close> (called for a model that is
  not the text encoder) and \<^verbatim>\<open>model.load_state_dict\<close> raise for a model and what is
  loaded into it. The hook's own state is the tracker's training state and the
  warnings logged. \<^verbatim>\<open>models.pop()\<close> takes the last model off the list. The result
  carries the list that is left and the models taken off it, each as the hook left it:
  when \<^verbatim>\<open>load_state_dict\<close> raises, the model has its new configuration and its old
  state dictionary.
\<close>

datatype model_class = UNet | TextEncoder | OtherModel

record model =
  model_class :: model_class
  config :: string
  state_dict :: string

record load_env =
  path_exists :: "string \<Rightarrow> bool"
  load_training_state :: "string \<Rightarrow> exn + string"
  from_pretrained :: "string \<Rightarrow> string \<Rightarrow> exn + string \<times> string"
  register_to_config_outcome :: "model \<Rightarrow> string \<Rightarrow> exn option"
  load_state_dict_outcome :: "model \<Rightarrow> string \<Rightarrow> exn option"

record tracker =
  training_state :: string
  warnings :: "string list"

function load_models ::
  "load_env \<Rightarrow> string \<Rightarrow> model list \<Rightarrow> model list \<Rightarrow> (exn + unit) \<times> model list \<times> model list" where
  "load_models env input_dir models loaded =
     (if length models > 0 then
        (let model = last models; models' = butlast models in
         case from_pretrained env input_dir
                (if model_class model = TextEncoder then ''text_encoder'' else ''unet'') of
           Inl e \<Rightarrow> (Inl e, models', loaded @ [model])
         | Inr (cfg, sd) \<Rightarrow>
             (case (if model_class model = TextEncoder then None
                    else register_to_config_outcome env model cfg) of
                Some e \<Rightarrow> (Inl e, models', loaded @ [model])
              | None \<Rightarrow>
                  (case load_state_dict_outcome env (model\<lparr>config := cfg\<rparr>) sd of
                     Some e \<Rightarrow> (Inl e, models', loaded @ [model\<lparr>config := cfg\<rparr>])
                   | None \<Rightarrow>
                       load_models env input_dir models'
                         (loaded @ [model\<lparr>config := cfg, state_dict := sd\<rparr>]))))
      else (Inr (), models, loaded))"
  by pat_completeness auto
termination
  by (relation "measure (\<lambda>(env, input_dir, models, loaded). length models)") auto

declare load_models.simps [simp del]

definition missing_state_warning :: "string \<Rightarrow> string" where
  "missing_state_warning input_dir =
     ''Could not find training_state.json in checkpoint dir '' @ input_dir"

definition load_model_hook ::
  "load_env \<Rightarrow> model list \<Rightarrow> string \<Rightarrow> tracker
     \<Rightarrow> (exn + unit) \<times> tracker \<times> model list \<times> model list" where
  "load_model_hook env models input_dir st =
     (let training_state_path = path_join input_dir ''training_state.json'' in
      case (if path_exists env training_state_path then
              (case load_training_state env training_state_path of
                 Inl e \<Rightarrow> Inl e
               | Inr ts \<Rightarrow> Inr (st\<lparr>training_state := ts\<rparr>))
            else Inr (st\<lparr>warnings := warnings st @ [missing_state_warning input_dir]\<rparr>)) of
        Inl e \<Rightarrow> (Inl e, st, models, [])
      | Inr st' \<Rightarrow>
          (case load_models env input_dir models [] of
             (r, models', loaded) \<Rightarrow> (r, st', models', loaded)))"

text \<open>
  \<^verbatim>\<open>save_model_hook\<close>. The hook is called with \<^verbatim>\<open>output_dir\<close>, the directory of the new
  checkpoint, which is the entry \<open>name\<close> of \<^verbatim>\<open>args.output_dir\<close>. The state is the entries
  of \<^verbatim>\<open>args.output_dir\<close>, what has been written so far, in order, and the list
  \<^verbatim>\<open>weights\<close> that the hook pops. The outside is whether writing the training state,
  \<^verbatim>\<open>save_pretrained\<close> into a path and \<^verbatim>\<open>save_lora_weights\<close> raise. Whatever is written
  into the new checkpoint directory makes \<open>name\<close> an entry of \<^verbatim>\<open>args.output_dir\<close>.
\<close>

datatype saved =
  TrainingState string
| Pretrained string string
| LoraWeights string "string option" "string option"

record save_env =
  save_training_state_outcome :: "exn option"
  save_pretrained_outcome :: "string \<Rightarrow> exn option"
  save_lora_weights_outcome :: "exn option"

record save_state =
  entries :: "string list"
  written :: "saved list"
  weights :: "string list"

text \<open>
  Modelled from the spec: \<^verbatim>\<open>StateTracker.save_training_state\<close> is not among the sources;
  the training state is serialised alongside the checkpoint, into the file of the
  given path in the new checkpoint directory.
\<close>

definition save_training_state ::
  "save_env \<Rightarrow> string \<Rightarrow> string \<Rightarrow> save_state \<Rightarrow> (exn + unit) \<times> save_state" where
  "save_training_state env name path s =
     (case save_training_state_outcome env of
        Some e \<Rightarrow> (Inl e, s)
      | None \<Rightarrow>
          (Inr (), s\<lparr>entries := add_checkpoint name (entries s),
                      written := written s @ [TrainingState path]\<rparr>))"

text \<open>
  The loop of the LoRA path: the layers of the model that is the UNet or the text
  encoder, \<^verbatim>\<open>ValueError\<close> for any other model unless the DeepSpeed optimizer is in use,
  and one weight popped per model while there are weights.
\<close>

fun lora_layers ::
  "bool \<Rightarrow> model list \<Rightarrow> string option \<Rightarrow> string option \<Rightarrow> string list
     \<Rightarrow> (exn + string option \<times> string option) \<times> string list" where
  "lora_layers use_deepspeed_optimizer [] unet_layers text_encoder_layers ws =
     (Inr (unet_layers, text_encoder_layers), ws)"
| "lora_layers use_deepspeed_optimizer (model # rest) unet_layers text_encoder_layers ws =
     (if model_class model \<noteq> UNet \<and> model_class model \<noteq> TextEncoder
         \<and> \<not> use_deepspeed_optimizer
      then (Inl ValueError, ws)
      else lora_layers use_deepspeed_optimizer rest
             (if model_class model = UNet then Some (state_dict model) else unet_layers)
             (if model_class model = UNet then text_encoder_layers
              else if model_class model = TextEncoder then Some (state_dict model)
              else text_encoder_layers)
             (if ws \<noteq> [] then butlast ws else ws))"

text \<open>
  The loop of the full path: for each model the retention step on the entries as they
  are at that moment, then \<^verbatim>\<open>save_pretrained\<close> into the subfolder of the new checkpoint
  directory, then \<^verbatim>\<open>weights.pop()\<close>, which raises \<^verbatim>\<open>IndexError\<close> on an empty list.
\<close>

fun save_models ::
  "save_env \<Rightarrow> int option \<Rightarrow> string \<Rightarrow> string \<Rightarrow> model list \<Rightarrow> save_state
     \<Rightarrow> (exn + unit) \<times> save_state" where
  "save_models env checkpoints_total_limit args_output_dir name [] s = (Inr (), s)"
| "save_models env checkpoints_total_limit args_output_dir name (model # rest) s =
     (case retention_step checkpoints_total_limit (entries s) of
        Inl e \<Rightarrow> (Inl e, s)
      | Inr kept \<Rightarrow>
          (let s1 = s\<lparr>entries := kept\<rparr>;
               sub_dir = (if model_class model = UNet then ''unet'' else ''text_encoder'');
               path = path_join (path_join args_output_dir name) sub_dir
           in case save_pretrained_outcome env path of
                Some e \<Rightarrow> (Inl e, s1)
              | None \<Rightarrow>
                  (let s2 = s1\<lparr>entries := add_checkpoint name (entries s1),
                                written := written s1 @ [Pretrained path (state_dict model)]\<rparr>
                   in if weights s2 = [] then (Inl IndexError, s2)
                      else save_models env checkpoints_total_limit args_output_dir name rest
                             (s2\<lparr>weights := butlast (weights s2)\<rparr>))))"

text \<open>
  The hook: the training state is written first, into the new checkpoint directory.
  \<open>args_model_type\<close> is \<^verbatim>\<open>StateTracker.get_args().model_type\<close>; when it is \<^verbatim>\<open>lora\<close> the hook
  saves the LoRA weights and returns, and the retention step is not reached.
\<close>

definition save_model_hook ::
  "save_env \<Rightarrow> string \<Rightarrow> int option \<Rightarrow> string \<Rightarrow> bool \<Rightarrow> model list \<Rightarrow> string \<Rightarrow> save_state
     \<Rightarrow> (exn + unit) \<times> save_state" where
  "save_model_hook env args_model_type checkpoints_total_limit args_output_dir
       use_deepspeed_optimizer models name s =
     (let output_dir = path_join args_output_dir name in
      case save_training_state env name (path_join output_dir ''training_state.json'') s of
        (Inl e, s0) \<Rightarrow> (Inl e, s0)
      | (Inr u, s0) \<Rightarrow>
          if args_model_type = ''lora'' then
            (case lora_layers use_deepspeed_optimizer models None None (weights s0) of
               (Inl e, ws) \<Rightarrow> (Inl e, s0\<lparr>weights := ws\<rparr>)
             | (Inr (unet_lora_layers_to_save, text_encoder_lora_layers_to_save), ws) \<Rightarrow>
                 (case save_lora_weights_outcome env of
                    Some e \<Rightarrow> (Inl e, s0\<lparr>weights := ws\<rparr>)
                  | None \<Rightarrow>
                      (Inr (),
                       s0\<lparr>weights := ws,
                          entries := add_checkpoint name (entries s0),
                          written := written s0 @
                            [LoraWeights output_dir unet_lora_layers_to_save
                               text_encoder_lora_layers_to_save]\<rparr>)))
          else save_models env checkpoints_total_limit args_output_dir name models s0)"

section \<open>Notions the properties are stated with\<close>

text \<open>
  A directory named \<^verbatim>\<open>checkpoint-<n>\<close>: the prefix \<^verbatim>\<open>checkpoint-\<close> and then one or more
  decimal digits; its numeric suffix is the number those digits write.
\<close>

definition decimal_value :: "string \<Rightarrow> nat" where
  "decimal_value ds = foldl (\<lambda>acc c. 10 * acc + digit_val c) 0 ds"

definition checkpoint_named :: "string \<Rightarrow> bool" where
  "checkpoint_named d =
     (take 11 d = ''checkpoint-'' \<and> drop 11 d \<noteq> [] \<and> list_all is_digit (drop 11 d))"

definition suffix_value :: "string \<Rightarrow> nat" where
  "suffix_value d = decimal_value (drop 11 d)"

text \<open>Every object a client holds was put under its key by a request the client received.\<close>

definition stored_was_put :: "s3_client \<Rightarrow> bool" where
  "stored_was_put c = (\<forall>key. objects c key \<noteq> None \<longrightarrow> key \<in> set (put_keys (requests c)))"

text \<open>
  The local paths the images were saved to, in order; the events that the upload of the
  validation images can add; and, for each image in the order of the upload, its position
  within its own group.
\<close>

fun saved_paths :: "event list \<Rightarrow> string list" where
  "saved_paths [] = []"
| "saved_paths (ImageSave img image_path r # rest) = image_path # saved_paths rest"
| "saved_paths (ev # rest) = saved_paths rest"

fun image_stage_event :: "event \<Rightarrow> bool" where
  "image_stage_event (ImageSave img image_path r) = True"
| "image_stage_event (UploadFile path_in_repo f r) = startswith path_in_repo ''/assets/''"
| "image_stage_event (Send message) = True"
| "image_stage_event ev = False"

definition positions_in_group :: "(string \<times> images) list \<Rightarrow> nat list" where
  "positions_in_group groups =
     concat (map (\<lambda>(shortname, imgs). [0..<length (images_list imgs)]) groups)"

text \<open>
  One attempt of the weight upload is one call of \<^verbatim>\<open>upload_full_model\<close> or of
  \<^verbatim>\<open>upload_lora_model\<close>; the first begins with the folder upload, the second with the
  upload of the weights file. The answers to these calls, in order, are the results of
  the attempts; \<open>weight_upload_outcome\<close> is what the hub answers the \<open>n\<close>-th of them, and
  an answer is a failure the loop retries when it is an exception that
  \<^verbatim>\<open>except Exception\<close> catches.
\<close>

fun attempt_results :: "hub_manager \<Rightarrow> event list \<Rightarrow> exn option list" where
  "attempt_results m [] = []"
| "attempt_results m (UploadFolder f r # rest) =
     (if \<not> contains (model_type m) ''lora'' then r # attempt_results m rest
      else attempt_results m rest)"
| "attempt_results m (UploadFile path_in_repo f r # rest) =
     (if contains (model_type m) ''lora'' \<and> path_in_repo = ''/pytorch_lora_weights.safetensors''
      then r # attempt_results m rest
      else attempt_results m rest)"
| "attempt_results m (ev # rest) = attempt_results m rest"

definition weight_upload_outcome :: "hub_env \<Rightarrow> hub_manager \<Rightarrow> nat \<Rightarrow> exn option" where
  "weight_upload_outcome env m n =
     (if \<not> contains (model_type m) ''lora'' then upload_folder_outcome env n
      else upload_file_outcome env ''/pytorch_lora_weights.safetensors'' n)"

definition failed :: "exn option \<Rightarrow> bool" where
  "failed r = (case r of None \<Rightarrow> False | Some e \<Rightarrow> is_Exception e)"

text \<open>The local path of the image with running index \<open>idx\<close> at position \<open>sub_idx\<close> of its group.\<close>

definition image_path_of :: "hub_manager \<Rightarrow> string option \<Rightarrow> nat \<Rightarrow> nat \<Rightarrow> string" where
  "image_path_of m override_path idx sub_idx =
     path_join (path_join (py_or override_path (output_dir m)) ''assets'')
       (image_filename idx sub_idx)"

text \<open>An answer that \<^verbatim>\<open>except Exception\<close> does not catch.\<close>

definition uncaught :: "exn option \<Rightarrow> bool" where
  "uncaught r = (case r of None \<Rightarrow> False | Some e \<Rightarrow> \<not> is_Exception e)"

text \<open>
  A model after the hook has loaded it, given what \<^verbatim>\<open>from_pretrained\<close> yields for each
  subfolder of the checkpoint directory.
\<close>

definition reloaded :: "(string \<Rightarrow> string \<times> string) \<Rightarrow> model \<Rightarrow> model" where
  "reloaded ld model =
     (let sub = (if model_class model = TextEncoder then ''text_encoder'' else ''unet'')
      in model\<lparr>config := fst (ld sub), state_dict := snd (ld sub)\<rparr>)"

section \<open>Facts about splitting\<close>

lemma split_on_nonempty: "split_on c s \<noteq> []"
  by (induction s) (auto split: list.splits)

lemma split_on_no_sep: "c \<notin> set s \<Longrightarrow> split_on c s = [s]"
  by (induction s) auto

lemma split_on_pieces_no_sep: "w \<in> set (split_on c s) \<Longrightarrow> c \<notin> set w"
  by (induction s arbitrary: w) (auto split: if_splits list.splits)

lemma split_on_append_sep:
  "c \<notin> set a \<Longrightarrow> split_on c (a @ c # b) = a # split_on c b"
  by (induction a) auto

lemma convert_path_to_key_no_slash: "CHR ''/'' \<notin> set (convert_path_to_key p)"
  unfolding convert_path_to_key_def
  using split_on_pieces_no_sep [OF last_in_set [OF split_on_nonempty]] .

section \<open>Key normalisation\<close>

text \<open>
  C8. Key normalisation is idempotent: normalising a key that is already normalised
  changes nothing, and the path \<^verbatim>\<open>a/b/c.png\<close> is normalised to \<^verbatim>\<open>c.png\<close>.
\<close>

theorem convert_path_to_key_idempotent:
  "convert_path_to_key (convert_path_to_key k) = convert_path_to_key k
   \<and> convert_path_to_key ''a/b/c.png'' = ''c.png''"
proof
  have "split_on (CHR ''/'') (convert_path_to_key k) = [convert_path_to_key k]"
    by (rule split_on_no_sep) (rule convert_path_to_key_no_slash)
  then show "convert_path_to_key (convert_path_to_key k) = convert_path_to_key k"
    by (simp add: convert_path_to_key_def)
next
  show "convert_path_to_key ''a/b/c.png'' = ''c.png''"
    by (simp add: convert_path_to_key_def)
qed

section \<open>The keys the backend sends\<close>

lemma requests_head_object:
  "requests (snd (head_object fault key c)) = requests c @ [HeadObject key]"
  by (simp add: head_object_def Let_def split: option.splits)

lemma requests_get_object:
  "requests (snd (get_object fault key c)) = requests c @ [GetObject key]"
  by (simp add: get_object_def Let_def split: option.splits)

lemma requests_put_object:
  "requests (snd (put_object fault key body c)) = requests c @ [PutObject key body]"
  by (simp add: put_object_def Let_def split: option.splits)

lemma requests_delete_object:
  "requests (snd (delete_object fault key c)) = requests c @ [DeleteObject key]"
  by (simp add: delete_object_def Let_def split: option.splits)

lemma snd_exists: "snd (exists fault k c) = snd (head_object fault (convert_path_to_key k) c)"
  by (simp add: exists_def split: prod.splits sum.splits)

text \<open>The four calls on a single key send its last segment.\<close>

lemma single_key_calls_send_last_segment:
  "requests (snd (exists fault k c)) = requests c @ [HeadObject (convert_path_to_key k)]"
  "requests (snd (read fault k c)) = requests c @ [GetObject (convert_path_to_key k)]"
  "requests (snd (write_s3 fault k d c)) = requests c @ [PutObject (convert_path_to_key k) d]"
  "requests (snd (delete_s3 fault k c)) = requests c @ [DeleteObject (convert_path_to_key k)]"
  by (simp_all add: snd_exists read_def write_s3_def delete_s3_def requests_head_object
      requests_get_object requests_put_object requests_delete_object)

text \<open>The batch write sends every key as it was given.\<close>

lemma write_batch_from_requests:
  "requests (write_batch_from faults i ks ds c) =
     requests c @
     map (\<lambda>(k, d). PutObject k (case d of Str s \<Rightarrow> encode_utf8 s | Bytes b \<Rightarrow> b)) (zip ks ds)"
  by (induction faults i ks ds c rule: write_batch_from.induct)
     (simp_all add: upload_to_s3_def requests_put_object)

text \<open>
  C5. Every operation of the backend that sends a key reduces the path to its last
  segment first. The batch write does not: for the path \<^verbatim>\<open>a/b/c.png\<close> it puts the object
  under the key \<^verbatim>\<open>a/b/c.png\<close>, where \<^verbatim>\<open>write\<close> puts it under \<^verbatim>\<open>c.png\<close>, and \<^verbatim>\<open>exists\<close>
  of the same path then answers \<^verbatim>\<open>False\<close>.
\<close>

theorem write_batch_key_not_normalised:
  "requests (write_batch (\<lambda>i. None) [''a/b/c.png''] [Str ''x''] new_bucket)
     = [PutObject ''a/b/c.png'' ''x'']
   \<and> requests (snd (write_s3 None ''a/b/c.png'' ''x'' new_bucket))
     = [PutObject ''c.png'' ''x'']
   \<and> fst (exists None ''a/b/c.png''
        (write_batch (\<lambda>i. None) [''a/b/c.png''] [Str ''x''] new_bucket))
     = False"
  by (simp add: write_batch_def upload_to_s3_def put_object_def write_s3_def exists_def
      head_object_def convert_path_to_key_def encode_utf8_def new_bucket_def Let_def)

section \<open>Probing for existence\<close>

lemma put_keys_append: "put_keys (xs @ ys) = put_keys xs @ put_keys ys"
  by (induction xs rule: put_keys.induct) simp_all

lemma stored_was_put_head: "stored_was_put c \<Longrightarrow> stored_was_put (snd (head_object f key c))"
  by (auto simp: stored_was_put_def head_object_def Let_def put_keys_append split: option.splits)

lemma stored_was_put_get: "stored_was_put c \<Longrightarrow> stored_was_put (snd (get_object f key c))"
  by (auto simp: stored_was_put_def get_object_def Let_def put_keys_append split: option.splits)

lemma stored_was_put_put: "stored_was_put c \<Longrightarrow> stored_was_put (snd (put_object f key body c))"
  by (auto simp: stored_was_put_def put_object_def Let_def put_keys_append split: option.splits)

lemma stored_was_put_delete:
  "stored_was_put c \<Longrightarrow> stored_was_put (snd (delete_object f key c))"
  by (auto simp: stored_was_put_def delete_object_def Let_def put_keys_append split: option.splits)

lemma stored_was_put_batch:
  "stored_was_put c \<Longrightarrow> stored_was_put (write_batch_from faults i ks ds c)"
  by (induction faults i ks ds c rule: write_batch_from.induct)
     (simp_all add: upload_to_s3_def stored_was_put_put)

lemma stored_was_put_call: "stored_was_put c \<Longrightarrow> stored_was_put (run_call faults x c)"
  by (cases x)
     (simp_all add: snd_exists read_def write_s3_def delete_s3_def write_batch_def
        stored_was_put_head stored_was_put_get stored_was_put_put stored_was_put_delete
        stored_was_put_batch)

lemma stored_was_put_calls: "stored_was_put c \<Longrightarrow> stored_was_put (run_calls h c)"
  by (induction h arbitrary: c) (auto simp: stored_was_put_call)

lemma stored_was_put_new: "stored_was_put new_bucket"
  by (simp add: stored_was_put_def new_bucket_def)

lemma exists_iff_stored:
  "fst (exists fault k c) = (fault = None \<and> objects c (convert_path_to_key k) \<noteq> None)"
  by (auto simp: exists_def head_object_def Let_def split: option.splits)

text \<open>
  C7, as stated, fails: after \<^verbatim>\<open>write("a/x.png", ...)\<close> on a new bucket, \<^verbatim>\<open>exists\<close> answers
  \<^verbatim>\<open>True\<close> for the key \<^verbatim>\<open>b/x.png\<close>, which was never written.
\<close>

theorem exists_true_for_unwritten_key:
  "fst (exists None ''b/x.png''
         (run_calls [(\<lambda>i. None, Write ''a/x.png'' ''data'')] new_bucket)) = True"
  by (simp add: exists_iff_stored write_s3_def put_object_def new_bucket_def
      convert_path_to_key_def Let_def)

text \<open>
  C7, amended. \<^verbatim>\<open>exists\<close> answers \<^verbatim>\<open>False\<close> whenever the retrieval raises, whatever the
  exception; it answers \<^verbatim>\<open>False\<close> after any history of calls on a new bucket in which no
  object was put under the last segment of the key; and it answers \<^verbatim>\<open>True\<close> right after
  a \<^verbatim>\<open>write\<close> to the same key that did not raise.
\<close>

theorem exists_false_on_error_or_unwritten:
  "(fst (head_object fault (convert_path_to_key k) c) = Inl e \<longrightarrow> fst (exists fault k c) = False)
   \<and> (convert_path_to_key k \<notin> set (put_keys (requests (run_calls h new_bucket)))
        \<longrightarrow> fst (exists fault k (run_calls h new_bucket)) = False)
   \<and> (fst (write_s3 wfault k d c) = Inr ()
        \<longrightarrow> fst (exists None k (snd (write_s3 wfault k d c))) = True)"
proof (intro conjI impI)
  assume "fst (head_object fault (convert_path_to_key k) c) = Inl e"
  then show "fst (exists fault k c) = False"
    by (cases "head_object fault (convert_path_to_key k) c") (simp add: exists_def)
next
  assume unwritten: "convert_path_to_key k \<notin> set (put_keys (requests (run_calls h new_bucket)))"
  have "stored_was_put (run_calls h new_bucket)"
    by (rule stored_was_put_calls) (rule stored_was_put_new)
  with unwritten have "objects (run_calls h new_bucket) (convert_path_to_key k) = None"
    unfolding stored_was_put_def by blast
  then show "fst (exists fault k (run_calls h new_bucket)) = False"
    by (simp add: exists_iff_stored)
next
  assume "fst (write_s3 wfault k d c) = Inr ()"
  then show "fst (exists None k (snd (write_s3 wfault k d c))) = True"
    by (auto simp: exists_iff_stored write_s3_def put_object_def Let_def split: option.splits)
qed

theorem exists_false_on_error_or_unwritten_witness:
  "fst (exists (Some (BaseException ''KeyboardInterrupt'')) ''a/x.png''
         (snd (write_s3 None ''a/x.png'' ''data'' new_bucket))) = False
   \<and> fst (exists None ''a/x.png''
         (run_calls [(\<lambda>i. None, Write ''b/y.png'' ''data''), (\<lambda>i. None, Delete ''b/y.png'')]
            new_bucket)) = False
   \<and> fst (exists None ''a/x.png'' (snd (write_s3 None ''a/x.png'' ''data'' new_bucket))) = True"
proof (intro conjI)
  let ?c = "snd (write_s3 None ''a/x.png'' ''data'' new_bucket)"
  let ?e = "BaseException ''KeyboardInterrupt''"
  have "fst (head_object (Some ?e) (convert_path_to_key ''a/x.png'') ?c) = Inl ?e"
    by (simp add: head_object_def Let_def)
  then show "fst (exists (Some ?e) ''a/x.png'' ?c) = False"
    using exists_false_on_error_or_unwritten
      [where fault = "Some ?e" and k = "''a/x.png''" and c = ?c and e = ?e]
    by blast
next
  let ?h = "[(\<lambda>i. None, Write ''b/y.png'' ''data''), (\<lambda>i. None, Delete ''b/y.png'')]"
  have "convert_path_to_key ''a/x.png'' \<notin> set (put_keys (requests (run_calls ?h new_bucket)))"
    by (simp add: write_s3_def put_object_def new_bucket_def convert_path_to_key_def Let_def
        delete_s3_def delete_object_def)
  then show "fst (exists None ''a/x.png'' (run_calls ?h new_bucket)) = False"
    using exists_false_on_error_or_unwritten [where k = "''a/x.png''" and h = ?h and fault = None]
    by blast
next
  have "fst (write_s3 None ''a/x.png'' ''data'' new_bucket) = Inr ()"
    by (simp add: write_s3_def put_object_def Let_def)
  then show "fst (exists None ''a/x.png'' (snd (write_s3 None ''a/x.png'' ''data'' new_bucket))) = True"
    using exists_false_on_error_or_unwritten
      [where wfault = None and k = "''a/x.png''" and d = "''data''" and c = new_bucket]
    by blast
qed

section \<open>The latest checkpoint\<close>

text \<open>
  C6. Over \<^verbatim>\<open>checkpoint-3\<close>, \<^verbatim>\<open>checkpoint-10\<close>, \<^verbatim>\<open>checkpoint-2\<close> the search returns
  \<^verbatim>\<open>checkpoint-10\<close>. But when the only checkpoint directory is \<^verbatim>\<open>checkpoint-0\<close>, the
  search returns \<^verbatim>\<open>None\<close>, because the running maximum starts at 0 and is replaced only
  by a strictly greater value; then \<^verbatim>\<open>upload_latest_checkpoint\<close> does nothing although a
  checkpoint directory exists.
\<close>

theorem find_latest_checkpoint_misses_step_zero:
  "find_latest_checkpoint [''out/checkpoint-3'', ''out/checkpoint-10'', ''out/checkpoint-2'']
     = Inr (Some ''out/checkpoint-10'')
   \<and> find_latest_checkpoint [''out/checkpoint-0''] = Inr None
   \<and> upload_latest_checkpoint env m [''out/checkpoint-0''] validation_images webhook_handler log
     = (Inr (), log)"
  by (simp add: find_latest_checkpoint_def upload_latest_checkpoint_def rglob_checkpoints_def
      path_name_def startswith_def stem_def py_int_def strip_def is_space_def is_digit_def
      digit_val_def)

section \<open>Uploading the validation images\<close>

text \<open>
  C2. An image whose every upload succeeds is uploaded once by a loop that stops at the
  first success. The loop of \<^verbatim>\<open>upload_validation_images\<close> does not stop: with a hub that
  accepts every upload, the one image of the input is uploaded three times.
\<close>

theorem image_uploaded_three_times:
  "snd (upload_validation_images
          \<lparr>card_outcome = None, image_save_outcome = (\<lambda>p. None),
            upload_file_outcome = (\<lambda>p n. None), upload_folder_outcome = (\<lambda>n. None)\<rparr>
          \<lparr>model_type = ''full'', output_dir = ''out'', repo_id = ''r'', created_repo_id = ''r''\<rparr>
          [(''prompt'', Single ''img'')] False None [])
   = [ImageSave ''img'' ''out/assets/image_0_0.png'' None,
      UploadFile ''/assets/image_0_0.png'' ''out/assets/image_0_0.png'' None,
      UploadFile ''/assets/image_0_0.png'' ''out/assets/image_0_0.png'' None,
      UploadFile ''/assets/image_0_0.png'' ''out/assets/image_0_0.png'' None]"
  by (simp add: upload_validation_images_def image_save_def raised_def image_filename_def
      str_nat.simps digit_char_def path_join_def py_or_def startswith_def
      image_upload_attempts.simps upload_file_def Let_def)

section \<open>The names of the validation images\<close>

lemma saved_paths_append: "saved_paths (xs @ ys) = saved_paths xs @ saved_paths ys"
  by (induction xs rule: saved_paths.induct) simp_all

lemma image_upload_attempts_returns:
  assumes ok: "\<forall>n. \<not> uncaught (upload_file_outcome env p n)"
    and p: "startswith p ''/assets/''"
  shows "\<exists>evs. image_upload_attempts env w p ip a log = (Inr (), log @ evs)
           \<and> list_all image_stage_event evs \<and> saved_paths evs = []"
proof (induction "3 - a" arbitrary: a log)
  case 0
  then have "\<not> a < 3" by simp
  then show ?case by (simp add: image_upload_attempts.simps)
next
  case (Suc k)
  then have a: "a < 3" and k: "k = 3 - (a + 1)" by simp_all
  let ?r = "upload_file_outcome env p (length (filter (is_upload_of p) log))"
  let ?log1 = "log @ [UploadFile p ip ?r]"
  show ?case
  proof (cases ?r)
    case None
    from Suc(1) [OF k, of ?log1] obtain evs where
      evs: "image_upload_attempts env w p ip (a + 1) ?log1 = (Inr (), ?log1 @ evs)"
        "list_all image_stage_event evs" "saved_paths evs = []" by blast
    have "image_upload_attempts env w p ip a log = (Inr (), log @ (UploadFile p ip ?r # evs))"
      using a None evs(1)
      by (subst image_upload_attempts.simps) (simp add: upload_file_def raised_def Let_def)
    then show ?thesis using evs(2,3) p by (intro exI conjI) (assumption, simp_all)
  next
    case (Some e)
    let ?log2 = "send w (image_error_message (a + 1) e) ?log1"
    from Suc(1) [OF k, of ?log2] obtain evs where
      evs: "image_upload_attempts env w p ip (a + 1) ?log2 = (Inr (), ?log2 @ evs)"
        "list_all image_stage_event evs" "saved_paths evs = []" by blast
    obtain sent where sent: "?log2 = log @ (UploadFile p ip ?r # sent)"
        "list_all image_stage_event sent" "saved_paths sent = []"
      by (cases w) (simp_all add: send_def)
    have "image_upload_attempts env w p ip a log = (Inr (), ?log2 @ evs)"
      using a Some evs(1) ok [rule_format, of "length (filter (is_upload_of p) log)"]
      by (subst image_upload_attempts.simps) (simp add: upload_file_def raised_def Let_def uncaught_def)
    then have "image_upload_attempts env w p ip a log
                 = (Inr (), log @ (UploadFile p ip ?r # sent @ evs))"
      using sent(1) by simp
    then show ?thesis using evs(2,3) sent(2,3) p
      by (intro exI conjI) (assumption, simp_all add: saved_paths_append)
  qed
qed

lemma upload_group_returns:
  assumes saves: "\<forall>q. image_save_outcome env q = None"
    and ok: "\<forall>q n. \<not> uncaught (upload_file_outcome env q n)"
  shows "\<exists>evs. upload_group env m w ov imgs idx sub log = (Inr (idx + length imgs), log @ evs)
           \<and> list_all image_stage_event evs
           \<and> saved_paths evs = map (\<lambda>i. image_path_of m ov (idx + i) (sub + i)) [0..<length imgs]"
proof (induction imgs arbitrary: idx sub log)
  case Nil
  show ?case by simp
next
  case (Cons img rest)
  let ?ip = "image_path_of m ov idx sub"
  let ?log1 = "log @ [ImageSave img ?ip None]"
  have "startswith (''/assets/'' @ image_filename idx sub) ''/assets/''"
    by (simp add: startswith_def)
  from image_upload_attempts_returns [OF ok [rule_format, THEN allI] this, where w = w and ip = ?ip and a = 0 and log = ?log1] obtain evs1 where
    evs1: "image_upload_attempts env w (''/assets/'' @ image_filename idx sub) ?ip 0 ?log1
             = (Inr (), ?log1 @ evs1)"
      "list_all image_stage_event evs1" "saved_paths evs1 = []" by blast
  from Cons [of "idx + 1" "sub + 1" "?log1 @ evs1"] obtain evs2 where
    evs2: "upload_group env m w ov rest (idx + 1) (sub + 1) (?log1 @ evs1)
             = (Inr (idx + 1 + length rest), (?log1 @ evs1) @ evs2)"
      "list_all image_stage_event evs2"
      "saved_paths evs2 = map (\<lambda>i. image_path_of m ov (idx + 1 + i) (sub + 1 + i)) [0..<length rest]"
    by blast
  have "upload_group env m w ov (img # rest) idx sub log
          = (Inr (idx + length (img # rest)), log @ (ImageSave img ?ip None # evs1 @ evs2))"
    using evs1(1) evs2(1)
    by (simp add: image_save_def saves raised_def Let_def image_path_of_def)
  moreover have "list_all image_stage_event (ImageSave img ?ip None # evs1 @ evs2)"
    using evs1(2) evs2(2) by simp
  moreover have "saved_paths (ImageSave img ?ip None # evs1 @ evs2)
          = map (\<lambda>i. image_path_of m ov (idx + i) (sub + i)) [0..<length (img # rest)]"
    using evs1(3) evs2(3) by (simp add: saved_paths_append upt_conv_Cons map_Suc_upt [symmetric] del: upt_Suc)
  ultimately show ?case by blast
qed


lemma zip_upt_positions: "map (\<lambda>(k, j). f k j) (zip [idx..<idx + n] [0..<n]) = map (\<lambda>i. f (idx + i) i) [0..<n]"
  by (rule nth_equalityI) simp_all

lemma upload_groups_returns:
  assumes saves: "\<forall>q. image_save_outcome env q = None"
    and ok: "\<forall>q n. \<not> uncaught (upload_file_outcome env q n)"
  shows "\<exists>evs. upload_groups env m w ov groups idx log = (Inr (), log @ evs)
           \<and> list_all image_stage_event evs
           \<and> saved_paths evs =
               map (\<lambda>(k, j). image_path_of m ov k j)
                 (zip [idx..<idx + length (positions_in_group groups)] (positions_in_group groups))"
proof (induction groups arbitrary: idx log)
  case Nil
  show ?case by (simp add: positions_in_group_def)
next
  case (Cons g rest)
  obtain shortname imgs where g: "g = (shortname, imgs)" by (cases g)
  let ?n = "length (images_list imgs)"
  let ?ps = "positions_in_group rest"
  from upload_group_returns [OF saves ok, of m w ov "images_list imgs" idx 0 log] obtain evs1 where
    evs1: "upload_group env m w ov (images_list imgs) idx 0 log = (Inr (idx + ?n), log @ evs1)"
      "list_all image_stage_event evs1"
      "saved_paths evs1 = map (\<lambda>i. image_path_of m ov (idx + i) (0 + i)) [0..<?n]" by blast
  from Cons [of "idx + ?n" "log @ evs1"] obtain evs2 where
    evs2: "upload_groups env m w ov rest (idx + ?n) (log @ evs1) = (Inr (), (log @ evs1) @ evs2)"
      "list_all image_stage_event evs2"
      "saved_paths evs2 =
         map (\<lambda>(k, j). image_path_of m ov k j) (zip [idx + ?n..<idx + ?n + length ?ps] ?ps)"
    by blast
  have ps: "positions_in_group (g # rest) = [0..<?n] @ ?ps"
    by (simp add: positions_in_group_def g)
  have upt: "[idx..<idx + (?n + length ?ps)] = [idx..<idx + ?n] @ [idx + ?n..<idx + ?n + length ?ps]"
    using upt_add_eq_append [of idx "idx + ?n" "length ?ps"] by (simp add: add.assoc)
  have "upload_groups env m w ov (g # rest) idx log = (Inr (), log @ (evs1 @ evs2))"
    using evs1(1) evs2(1) by (simp add: g)
  moreover have "list_all image_stage_event (evs1 @ evs2)"
    using evs1(2) evs2(2) by simp
  moreover have "saved_paths (evs1 @ evs2) =
      map (\<lambda>(k, j). image_path_of m ov k j)
        (zip [idx..<idx + length (positions_in_group (g # rest))] (positions_in_group (g # rest)))"
    using evs1(3) evs2(3)
    by (simp add: saved_paths_append ps upt zip_upt_positions del: upt_Suc)
  ultimately show ?case by blast
qed

lemma upload_validation_images_returns:
  assumes saves: "\<forall>q. image_save_outcome env q = None"
    and ok: "\<forall>q n. \<not> uncaught (upload_file_outcome env q n)"
  shows "\<exists>evs. upload_validation_images env m groups w ov log = (Inr (), log @ evs)
           \<and> list_all image_stage_event evs
           \<and> saved_paths evs =
               map (\<lambda>(k, j). image_path_of m ov k j)
                 (zip [0..<length (positions_in_group groups)] (positions_in_group groups))"
proof (cases "groups = []")
  case True
  then show ?thesis by (simp add: upload_validation_images_def positions_in_group_def)
next
  case False
  then show ?thesis
    using upload_groups_returns [OF saves ok, of m w ov groups 0 log]
    by (simp add: upload_validation_images_def)
qed

lemma split_on_after_sep:
  "\<exists>ps. ps \<noteq> [] \<and> split_on c (pre @ c # b) = ps @ split_on c b"
proof (induction pre)
  case Nil
  have "split_on c ([] @ c # b) = [[]] @ split_on c b" by simp
  then show ?case by blast
next
  case (Cons x pre)
  then obtain ps where ps: "ps \<noteq> []" "split_on c (pre @ c # b) = ps @ split_on c b" by blast
  then obtain w ws where w: "ps = w # ws" by (cases ps) auto
  show ?case
  proof (cases "x = c")
    case True
    then have "split_on c ((x # pre) @ c # b) = ([] # ps) @ split_on c b" using ps by simp
    then show ?thesis by blast
  next
    case False
    then have "split_on c ((x # pre) @ c # b) = ((x # w) # ws) @ split_on c b"
      using ps w by simp
    then show ?thesis by blast
  qed
qed

lemma last_split_on_after_sep: "last (split_on c (pre @ c # b)) = last (split_on c b)"
  using split_on_after_sep [of c pre b] by (auto simp: split_on_nonempty)

lemma digit_char_in: "d < 10 \<Longrightarrow> digit_char d \<in> set ''0123456789''"
  unfolding digit_char_def by (rule nth_mem) simp

lemma str_nat_digits: "set (str_nat n) \<subseteq> set ''0123456789''"
proof (induction n rule: str_nat.induct)
  case (1 n)
  show ?case
  proof (cases "n < 10")
    case True
    then show ?thesis using digit_char_in [of n] by (subst str_nat.simps) simp
  next
    case False
    have "digit_char (n mod 10) \<in> set ''0123456789''" by (rule digit_char_in) simp
    with 1 False show ?thesis by (subst str_nat.simps) simp
  qed
qed

lemma image_filename_no_slash: "CHR ''/'' \<notin> set (image_filename k j)"
  using str_nat_digits [of k] str_nat_digits [of j] by (auto simp: image_filename_def)

lemma image_filename_not_absolute: "\<not> startswith (image_filename k j) ''/''"
  by (simp add: startswith_def image_filename_def)

lemma path_name_image_path_of: "path_name (image_path_of m ov k j) = image_filename k j"
proof -
  let ?a = "path_join (py_or ov (output_dir m)) ''assets''"
  let ?b = "image_filename k j"
  have b: "split_on (CHR ''/'') ?b = [?b]"
    by (rule split_on_no_sep) (rule image_filename_no_slash)
  show ?thesis
  proof (cases "?a = []")
    case True
    then show ?thesis
      by (simp add: image_path_of_def path_join_def [of "[]"] image_filename_not_absolute path_name_def b)
  next
    case False
    then have "\<exists>pre. path_join ?a ?b = pre @ CHR ''/'' # ?b"
    proof (cases "last ?a = CHR ''/''")
      case True
      with False have "path_join ?a ?b = butlast ?a @ CHR ''/'' # ?b"
        using append_butlast_last_id [of ?a]
        by (simp add: path_join_def [of ?a] image_filename_not_absolute)
      then show ?thesis by blast
    next
      case False
      with \<open>?a \<noteq> []\<close> have "path_join ?a ?b = ?a @ CHR ''/'' # ?b"
        by (simp add: path_join_def [of ?a] image_filename_not_absolute)
      then show ?thesis by blast
    qed
    then obtain pre where "path_join ?a ?b = pre @ CHR ''/'' # ?b" by blast
    then show ?thesis
      by (simp add: image_path_of_def path_name_def last_split_on_after_sep b)
  qed
qed

text \<open>
  C3, as stated, fails: for two groups of 1 and 2 images the files written are not
  \<^verbatim>\<open>image_0_0.png\<close>, \<^verbatim>\<open>image_1_0.png\<close>, \<^verbatim>\<open>image_2_0.png\<close>.
\<close>

theorem image_names_not_as_claimed:
  "map path_name (saved_paths (snd (upload_validation_images
      \<lparr>card_outcome = None, image_save_outcome = (\<lambda>p. None),
        upload_file_outcome = (\<lambda>p n. None), upload_folder_outcome = (\<lambda>n. None)\<rparr>
      \<lparr>model_type = ''full'', output_dir = ''out'', repo_id = ''r'', created_repo_id = ''r''\<rparr>
      [(''first'', Images [''x'']), (''second'', Images [''y'', ''z''])] False None [])))
   \<noteq> [''image_0_0.png'', ''image_1_0.png'', ''image_2_0.png'']"
  by (simp add: upload_validation_images_def image_save_def raised_def image_filename_def
      str_nat.simps digit_char_def path_join_def py_or_def startswith_def
      image_upload_attempts.simps upload_file_def Let_def path_name_def)

text \<open>
  C3, amended. When saving an image does not raise and an upload raises nothing that
  \<^verbatim>\<open>except Exception\<close> lets through, \<^verbatim>\<open>upload_validation_images\<close> returns and has written
  each image under \<^verbatim>\<open>image_{idx}_{sub_idx}.png\<close>, where \<open>idx\<close> is the running index of the
  image over all the images of all groups and \<open>sub_idx\<close> its position within its own
  group. For two groups of 1 and 2 images the names are \<^verbatim>\<open>image_0_0.png\<close>,
  \<^verbatim>\<open>image_1_0.png\<close>, \<^verbatim>\<open>image_2_1.png\<close>.
\<close>

theorem image_names_positional:
  assumes "\<forall>q. image_save_outcome env q = None"
    and "\<forall>q n. \<not> uncaught (upload_file_outcome env q n)"
  shows "fst (upload_validation_images env m groups w ov []) = Inr ()
    \<and> map path_name (saved_paths (snd (upload_validation_images env m groups w ov [])))
        = map (\<lambda>(k, j). image_filename k j)
            (zip [0..<length (positions_in_group groups)] (positions_in_group groups))
    \<and> map path_name (saved_paths (snd (upload_validation_images env m
          [(s1, Images [x]), (s2, Images [y, z])] w ov [])))
        = [''image_0_0.png'', ''image_1_0.png'', ''image_2_1.png'']"
proof -
  have general: "fst (upload_validation_images env m gs w ov []) = Inr ()
    \<and> map path_name (saved_paths (snd (upload_validation_images env m gs w ov [])))
        = map (\<lambda>(k, j). image_filename k j)
            (zip [0..<length (positions_in_group gs)] (positions_in_group gs))" for gs
  proof -
    from upload_validation_images_returns [OF assms, of m gs w ov "[]"] obtain evs where
      evs: "upload_validation_images env m gs w ov [] = (Inr (), evs)"
        "saved_paths evs =
           map (\<lambda>(k, j). image_path_of m ov k j)
             (zip [0..<length (positions_in_group gs)] (positions_in_group gs))"
      by auto
    have "map path_name (saved_paths evs) =
            map (\<lambda>(k, j). image_filename k j)
              (zip [0..<length (positions_in_group gs)] (positions_in_group gs))"
      unfolding evs(2) by (simp add: path_name_image_path_of split_def)
    with evs(1) show ?thesis by simp
  qed
  have "map path_name (saved_paths (snd (upload_validation_images env m
          [(s1, Images [x]), (s2, Images [y, z])] w ov [])))
        = [image_filename 0 0, image_filename (Suc 0) 0, image_filename (Suc (Suc 0)) (Suc 0)]"
    using general [of "[(s1, Images [x]), (s2, Images [y, z])]"]
    by (simp add: positions_in_group_def upt_rec [of 0] upt_rec [of 1] upt_rec [of 2])
  then show ?thesis
    using general [of groups]
    by (simp add: image_filename_def str_nat.simps digit_char_def)
qed

theorem image_names_positional_witness:
  "map path_name (saved_paths (snd (upload_validation_images
      \<lparr>card_outcome = None, image_save_outcome = (\<lambda>p. None),
        upload_file_outcome = (\<lambda>p n. if n = 0 then Some (Exception ''timeout'') else None),
        upload_folder_outcome = (\<lambda>n. None)\<rparr>
      \<lparr>model_type = ''full'', output_dir = ''out'', repo_id = ''r'', created_repo_id = ''r''\<rparr>
      [(''first'', Single ''x''), (''second'', Images [''y'', ''z''])] True None [])))
   = [''image_0_0.png'', ''image_1_0.png'', ''image_2_1.png'']"
proof -
  let ?env = "\<lparr>card_outcome = None, image_save_outcome = (\<lambda>p. None),
        upload_file_outcome = (\<lambda>p n. if n = 0 then Some (Exception ''timeout'') else None),
        upload_folder_outcome = (\<lambda>n. None)\<rparr>"
  have saves: "\<forall>q. image_save_outcome ?env q = None" by simp
  have ok: "\<forall>q n. \<not> uncaught (upload_file_outcome ?env q n)" by (simp add: uncaught_def)
  show ?thesis
    using image_names_positional [OF saves ok, where groups = "[(''first'', Single ''x''), (''second'', Images [''y'', ''z''])]"
        and w = True and ov = None]
    by (simp add: positions_in_group_def upt_rec [of 0] upt_rec [of 1] upt_rec [of 2]
        image_filename_def str_nat.simps digit_char_def)
qed

section \<open>Retrying the weight upload\<close>

lemma attempt_results_append:
  "attempt_results m (xs @ ys) = attempt_results m xs @ attempt_results m ys"
  by (induction m xs rule: attempt_results.induct) simp_all

lemma attempt_results_image_stage:
  "list_all image_stage_event evs \<Longrightarrow> attempt_results m evs = []"
  by (induction m evs rule: attempt_results.induct) (auto simp: startswith_def)

lemma readme_uploads_image_stage:
  "list_all image_stage_event evs \<Longrightarrow> filter (is_upload_of ''/README.md'') evs = []"
proof (induction evs)
  case Nil
  show ?case by simp
next
  case (Cons ev evs)
  then show ?case by (cases ev) (auto simp: startswith_def)
qed

lemma attempt_results_send [simp]: "attempt_results m (send w msg log) = attempt_results m log"
  by (simp add: send_def attempt_results_append)

lemma readme_uploads_send [simp]:
  "filter (is_upload_of p) (send w msg log) = filter (is_upload_of p) log"
  by (simp add: send_def)

lemma count_folder_uploads:
  "\<not> contains (model_type m) ''lora'' \<Longrightarrow>
     length (filter is_upload_folder log) = length (attempt_results m log)"
  by (induction m log rule: attempt_results.induct) simp_all

lemma count_weights_uploads:
  "contains (model_type m) ''lora'' \<Longrightarrow>
     length (filter (is_upload_of ''/pytorch_lora_weights.safetensors'') log)
       = length (attempt_results m log)"
  by (induction m log rule: attempt_results.induct) simp_all

lemma failed_cases: "failed r \<Longrightarrow> \<exists>e. r = Some e \<and> is_Exception e"
  by (cases r) (simp_all add: failed_def)

text \<open>An attempt that fails hands over to the next one.\<close>

lemma attempt_fails:
  assumes a: "a < 3"
    and f: "failed (weight_upload_outcome env m (length (attempt_results m log)))"
  shows "\<exists>evs. model_upload_attempts env m w ov a log
                 = model_upload_attempts env m w ov (a + 1) (log @ evs)
           \<and> attempt_results m evs = [weight_upload_outcome env m (length (attempt_results m log))]
           \<and> filter (is_upload_of ''/README.md'') evs = []"
proof -
  let ?n = "length (attempt_results m log)"
  from failed_cases [OF f] obtain e where
    e: "weight_upload_outcome env m ?n = Some e" "is_Exception e" by blast
  show ?thesis
  proof (cases "contains (model_type m) ''lora''")
    case False
    let ?ev = "UploadFolder (py_or ov (path_join (output_dir m) ''pipeline'')) (Some e)"
    let ?evs = "?ev # (if w then [Send (model_error_message (a + 1) e)] else [])"
    have "model_upload_attempts env m w ov a log
            = model_upload_attempts env m w ov (a + 1) (log @ ?evs)"
      using a False e
      by (subst model_upload_attempts.simps)
         (simp add: upload_full_model_def upload_folder_def Let_def raised_def
            count_folder_uploads weight_upload_outcome_def send_def)
    moreover have "attempt_results m ?evs = [weight_upload_outcome env m ?n]"
      using False e by simp
    moreover have "filter (is_upload_of ''/README.md'') ?evs = []" by simp
    ultimately show ?thesis by blast
  next
    case True
    let ?ev = "UploadFile ''/pytorch_lora_weights.safetensors''
                 (path_join (py_or ov (output_dir m)) ''pytorch_lora_weights.safetensors'') (Some e)"
    let ?evs = "?ev # (if w then [Send (model_error_message (a + 1) e)] else [])"
    have "model_upload_attempts env m w ov a log
            = model_upload_attempts env m w ov (a + 1) (log @ ?evs)"
      using a True e
      by (subst model_upload_attempts.simps)
         (simp add: upload_lora_model_def upload_file_def Let_def raised_def
            count_weights_uploads weight_upload_outcome_def send_def)
    moreover have "attempt_results m ?evs = [weight_upload_outcome env m ?n]"
      using True e by simp
    moreover have "filter (is_upload_of ''/README.md'') ?evs = []" by simp
    ultimately show ?thesis by blast
  qed
qed

text \<open>An attempt that succeeds ends the loop.\<close>

lemma attempt_succeeds:
  assumes a: "a < 3"
    and s: "weight_upload_outcome env m (length (attempt_results m log)) = None"
    and readme: "contains (model_type m) ''lora'' \<longrightarrow>
        upload_file_outcome env ''/README.md'' (length (filter (is_upload_of ''/README.md'') log)) = None"
  shows "\<exists>evs. model_upload_attempts env m w ov a log = (Inr (), log @ evs)
           \<and> attempt_results m evs = [None]"
proof (cases "contains (model_type m) ''lora''")
  case False
  let ?ev = "UploadFolder (py_or ov (path_join (output_dir m) ''pipeline'')) None"
  have "model_upload_attempts env m w ov a log = (Inr (), log @ [?ev])"
    using a False s
    by (subst model_upload_attempts.simps)
       (simp add: upload_full_model_def upload_folder_def Let_def raised_def
          count_folder_uploads weight_upload_outcome_def)
  moreover have "attempt_results m [?ev] = [None]" using False by simp
  ultimately show ?thesis by blast
next
  case True
  let ?e1 = "UploadFile ''/pytorch_lora_weights.safetensors''
               (path_join (py_or ov (output_dir m)) ''pytorch_lora_weights.safetensors'') None"
  let ?e2 = "UploadFile ''/README.md'' (path_join (py_or ov (output_dir m)) ''README.md'') None"
  have "model_upload_attempts env m w ov a log = (Inr (), log @ [?e1, ?e2])"
    using a True s readme
    by (subst model_upload_attempts.simps)
       (simp add: upload_lora_model_def upload_file_def Let_def raised_def
          count_weights_uploads weight_upload_outcome_def)
  moreover have "attempt_results m [?e1, ?e2] = [None]" using True by simp
  ultimately show ?thesis by blast
qed

lemma attempts_exhausted: "\<not> a < 3 \<Longrightarrow> model_upload_attempts env m w ov a log = (Inr (), log)"
  by (subst model_upload_attempts.simps) simp


lemma fails_twice_then_succeeds:
  assumes fresh: "attempt_results m log = []" "filter (is_upload_of ''/README.md'') log = []"
    and f0: "failed (weight_upload_outcome env m 0)"
    and f1: "failed (weight_upload_outcome env m 1)"
    and s2: "weight_upload_outcome env m 2 = None"
    and readme: "contains (model_type m) ''lora'' \<longrightarrow> upload_file_outcome env ''/README.md'' 0 = None"
  shows "\<exists>evs. model_upload_attempts env m w ov 0 log = (Inr (), log @ evs)
           \<and> attempt_results m evs
               = [weight_upload_outcome env m 0, weight_upload_outcome env m 1, None]"
proof -
  have "\<exists>evs1. model_upload_attempts env m w ov 0 log
                  = model_upload_attempts env m w ov (Suc 0) (log @ evs1)
          \<and> attempt_results m evs1 = [weight_upload_outcome env m 0]
          \<and> filter (is_upload_of ''/README.md'') evs1 = []"
    using attempt_fails [of 0 env m log w ov] f0 fresh by simp
  then obtain evs1 where
    evs1: "model_upload_attempts env m w ov 0 log
             = model_upload_attempts env m w ov (Suc 0) (log @ evs1)"
      "attempt_results m evs1 = [weight_upload_outcome env m 0]"
      "filter (is_upload_of ''/README.md'') evs1 = []" by blast
  have "\<exists>evs2. model_upload_attempts env m w ov (Suc 0) (log @ evs1)
                  = model_upload_attempts env m w ov (Suc (Suc 0)) ((log @ evs1) @ evs2)
          \<and> attempt_results m evs2 = [weight_upload_outcome env m 1]
          \<and> filter (is_upload_of ''/README.md'') evs2 = []"
    using attempt_fails [of "Suc 0" env m "log @ evs1" w ov] f1 fresh evs1(2)
    by (simp add: attempt_results_append)
  then obtain evs2 where
    evs2: "model_upload_attempts env m w ov (Suc 0) (log @ evs1)
             = model_upload_attempts env m w ov (Suc (Suc 0)) ((log @ evs1) @ evs2)"
      "attempt_results m evs2 = [weight_upload_outcome env m 1]"
      "filter (is_upload_of ''/README.md'') evs2 = []" by blast
  have "\<exists>evs3. model_upload_attempts env m w ov (Suc (Suc 0)) ((log @ evs1) @ evs2)
                  = (Inr (), ((log @ evs1) @ evs2) @ evs3)
          \<and> attempt_results m evs3 = [None]"
    using attempt_succeeds [of "Suc (Suc 0)" env m "(log @ evs1) @ evs2" w ov]
      s2 readme fresh evs1(2,3) evs2(2,3)
    by (simp add: attempt_results_append numeral_2_eq_2)
  then obtain evs3 where
    evs3: "model_upload_attempts env m w ov (Suc (Suc 0)) ((log @ evs1) @ evs2)
             = (Inr (), ((log @ evs1) @ evs2) @ evs3)"
      "attempt_results m evs3 = [None]" by blast
  have "model_upload_attempts env m w ov 0 log = (Inr (), log @ (evs1 @ evs2 @ evs3))"
    using evs1(1) evs2(1) evs3(1) by simp
  moreover have "attempt_results m (evs1 @ evs2 @ evs3)
      = [weight_upload_outcome env m 0, weight_upload_outcome env m 1, None]"
    using evs1(2) evs2(2) evs3(2) by (simp add: attempt_results_append)
  ultimately show ?thesis by blast
qed

lemma always_fails:
  assumes fresh: "attempt_results m log = []"
    and f: "\<forall>n. failed (weight_upload_outcome env m n)"
  shows "\<exists>evs. model_upload_attempts env m w ov 0 log = (Inr (), log @ evs)
           \<and> attempt_results m evs
               = [weight_upload_outcome env m 0, weight_upload_outcome env m 1,
                  weight_upload_outcome env m 2]"
proof -
  have "\<exists>evs1. model_upload_attempts env m w ov 0 log
                  = model_upload_attempts env m w ov (Suc 0) (log @ evs1)
          \<and> attempt_results m evs1 = [weight_upload_outcome env m 0]"
    using attempt_fails [of 0 env m log w ov] f fresh by auto
  then obtain evs1 where
    evs1: "model_upload_attempts env m w ov 0 log
             = model_upload_attempts env m w ov (Suc 0) (log @ evs1)"
      "attempt_results m evs1 = [weight_upload_outcome env m 0]" by blast
  have "\<exists>evs2. model_upload_attempts env m w ov (Suc 0) (log @ evs1)
                  = model_upload_attempts env m w ov (Suc (Suc 0)) ((log @ evs1) @ evs2)
          \<and> attempt_results m evs2 = [weight_upload_outcome env m 1]"
    using attempt_fails [of "Suc 0" env m "log @ evs1" w ov] f fresh evs1(2)
    by (auto simp: attempt_results_append)
  then obtain evs2 where
    evs2: "model_upload_attempts env m w ov (Suc 0) (log @ evs1)
             = model_upload_attempts env m w ov (Suc (Suc 0)) ((log @ evs1) @ evs2)"
      "attempt_results m evs2 = [weight_upload_outcome env m 1]" by blast
  have "\<exists>evs3. model_upload_attempts env m w ov (Suc (Suc 0)) ((log @ evs1) @ evs2)
                  = model_upload_attempts env m w ov (Suc (Suc (Suc 0))) (((log @ evs1) @ evs2) @ evs3)
          \<and> attempt_results m evs3 = [weight_upload_outcome env m 2]"
    using attempt_fails [of "Suc (Suc 0)" env m "(log @ evs1) @ evs2" w ov] f fresh evs1(2) evs2(2)
    by (auto simp: attempt_results_append numeral_2_eq_2)
  then obtain evs3 where
    evs3: "model_upload_attempts env m w ov (Suc (Suc 0)) ((log @ evs1) @ evs2)
             = model_upload_attempts env m w ov (Suc (Suc (Suc 0))) (((log @ evs1) @ evs2) @ evs3)"
      "attempt_results m evs3 = [weight_upload_outcome env m 2]" by blast
  have "model_upload_attempts env m w ov 0 log = (Inr (), log @ (evs1 @ evs2 @ evs3))"
    using evs1(1) evs2(1) evs3(1) by (simp add: attempts_exhausted)
  moreover have "attempt_results m (evs1 @ evs2 @ evs3)
      = [weight_upload_outcome env m 0, weight_upload_outcome env m 1,
         weight_upload_outcome env m 2]"
    using evs1(2) evs2(2) evs3(2) by (simp add: attempt_results_append)
  ultimately show ?thesis by blast
qed

text \<open>Up to the retry loop, \<^verbatim>\<open>upload_model\<close> makes no attempt and uploads no README.\<close>

lemma upload_model_before_attempts:
  assumes card: "card_outcome env = None"
    and saves: "\<forall>q. image_save_outcome env q = None"
    and ok: "\<forall>q n. \<not> uncaught (upload_file_outcome env q n)"
  shows "\<exists>log2. attempt_results m log2 = [] \<and> filter (is_upload_of ''/README.md'') log2 = []
           \<and> upload_model env m imgs w ov []
               = (case model_upload_attempts env m w ov 0 log2 of
                    (Inl e, log3) \<Rightarrow> (Inl e, log3)
                  | (Inr u, log3) \<Rightarrow> (Inr (), send w (available_message m) log3))"
proof -
  let ?log0 = "send w (uploading_message m ov) []"
  let ?folder = "py_or ov (path_join (output_dir m)
                    (if \<not> contains (model_type m) ''lora'' then ''pipeline'' else []))"
  let ?log1 = "?log0 @ [SaveModelCard ?folder None]"
  from upload_validation_images_returns [OF saves ok, of m imgs False ov ?log1] obtain evs where
    evs: "upload_validation_images env m imgs False ov ?log1 = (Inr (), ?log1 @ evs)"
      "list_all image_stage_event evs" by blast
  have "attempt_results m (?log1 @ evs) = []"
    using attempt_results_image_stage [OF evs(2)] by (simp add: attempt_results_append)
  moreover have "filter (is_upload_of ''/README.md'') (?log1 @ evs) = []"
    using readme_uploads_image_stage [OF evs(2)] by simp
  moreover have "upload_model env m imgs w ov []
      = (case model_upload_attempts env m w ov 0 (?log1 @ evs) of
           (Inl e, log3) \<Rightarrow> (Inl e, log3)
         | (Inr u, log3) \<Rightarrow> (Inr (), send w (available_message m) log3))"
    using evs(1) by (simp add: upload_model_def Let_def save_model_card_def card raised_def)
  ultimately show ?thesis by blast
qed

text \<open>
  C4. Provided the model card and the validation images go through, \<^verbatim>\<open>upload_model\<close>
  with a weight upload that fails twice and then succeeds makes exactly three attempts,
  the third of which succeeds, and returns; with a weight upload that always fails it
  makes exactly three attempts, all of which fail, and returns all the same: it raises
  nothing, and its only result is \<^verbatim>\<open>None\<close>, which carries no status.
\<close>

theorem upload_model_three_attempts:
  assumes "card_outcome env = None"
    and "\<forall>q. image_save_outcome env q = None"
    and "\<forall>q n. \<not> uncaught (upload_file_outcome env q n)"
  shows "(failed (weight_upload_outcome env m 0) \<and> failed (weight_upload_outcome env m 1)
          \<and> weight_upload_outcome env m 2 = None
          \<and> (contains (model_type m) ''lora'' \<longrightarrow> upload_file_outcome env ''/README.md'' 0 = None)
          \<longrightarrow> fst (upload_model env m imgs w ov []) = Inr ()
              \<and> attempt_results m (snd (upload_model env m imgs w ov []))
                  = [weight_upload_outcome env m 0, weight_upload_outcome env m 1, None])
       \<and> ((\<forall>n. failed (weight_upload_outcome env m n))
          \<longrightarrow> fst (upload_model env m imgs w ov []) = Inr ()
              \<and> attempt_results m (snd (upload_model env m imgs w ov []))
                  = [weight_upload_outcome env m 0, weight_upload_outcome env m 1,
                     weight_upload_outcome env m 2])"
proof -
  from upload_model_before_attempts [OF assms, of m imgs w ov] obtain log2 where
    log2: "attempt_results m log2 = []" "filter (is_upload_of ''/README.md'') log2 = []"
      "upload_model env m imgs w ov []
         = (case model_upload_attempts env m w ov 0 log2 of
              (Inl e, log3) \<Rightarrow> (Inl e, log3)
            | (Inr u, log3) \<Rightarrow> (Inr (), send w (available_message m) log3))"
    by blast
  show ?thesis
  proof (intro conjI impI)
    assume a: "failed (weight_upload_outcome env m 0) \<and> failed (weight_upload_outcome env m 1)
          \<and> weight_upload_outcome env m 2 = None
          \<and> (contains (model_type m) ''lora'' \<longrightarrow> upload_file_outcome env ''/README.md'' 0 = None)"
    then have a0: "failed (weight_upload_outcome env m 0)"
      and a1: "failed (weight_upload_outcome env m 1)"
      and a2: "weight_upload_outcome env m 2 = None"
      and a3: "contains (model_type m) ''lora'' \<longrightarrow> upload_file_outcome env ''/README.md'' 0 = None"
      by simp_all
    from fails_twice_then_succeeds [OF log2(1,2) a0 a1 a2 a3, of w ov] obtain evs where
      evs: "model_upload_attempts env m w ov 0 log2 = (Inr (), log2 @ evs)"
        "attempt_results m evs = [weight_upload_outcome env m 0, weight_upload_outcome env m 1, None]"
      by blast
    show "fst (upload_model env m imgs w ov []) = Inr ()"
      using log2(3) evs(1) by simp
    show "attempt_results m (snd (upload_model env m imgs w ov []))
            = [weight_upload_outcome env m 0, weight_upload_outcome env m 1, None]"
      using log2(1,3) evs by (simp add: attempt_results_append)
  next
    assume a: "\<forall>n. failed (weight_upload_outcome env m n)"
    from always_fails [OF log2(1) a, of w ov] obtain evs where
      evs: "model_upload_attempts env m w ov 0 log2 = (Inr (), log2 @ evs)"
        "attempt_results m evs = [weight_upload_outcome env m 0, weight_upload_outcome env m 1,
           weight_upload_outcome env m 2]"
      by blast
    show "fst (upload_model env m imgs w ov []) = Inr ()"
      using log2(3) evs(1) by simp
    show "attempt_results m (snd (upload_model env m imgs w ov []))
            = [weight_upload_outcome env m 0, weight_upload_outcome env m 1,
               weight_upload_outcome env m 2]"
      using log2(1,3) evs by (simp add: attempt_results_append)
  qed
qed


theorem upload_model_three_attempts_witness:
  "fst (upload_model
          \<lparr>card_outcome = None, image_save_outcome = (\<lambda>p. None),
            upload_file_outcome = (\<lambda>p n. None),
            upload_folder_outcome = (\<lambda>n. if n < 2 then Some (Exception ''503'') else None)\<rparr>
          \<lparr>model_type = ''full'', output_dir = ''out'', repo_id = ''r'', created_repo_id = ''r''\<rparr>
          [(''prompt'', Single ''img'')] True None []) = Inr ()
   \<and> attempt_results
        \<lparr>model_type = ''full'', output_dir = ''out'', repo_id = ''r'', created_repo_id = ''r''\<rparr>
        (snd (upload_model
          \<lparr>card_outcome = None, image_save_outcome = (\<lambda>p. None),
            upload_file_outcome = (\<lambda>p n. None),
            upload_folder_outcome = (\<lambda>n. if n < 2 then Some (Exception ''503'') else None)\<rparr>
          \<lparr>model_type = ''full'', output_dir = ''out'', repo_id = ''r'', created_repo_id = ''r''\<rparr>
          [(''prompt'', Single ''img'')] True None []))
      = [Some (Exception ''503''), Some (Exception ''503''), None]
   \<and> fst (upload_model
          \<lparr>card_outcome = None, image_save_outcome = (\<lambda>p. None),
            upload_file_outcome = (\<lambda>p n. if p = ''/pytorch_lora_weights.safetensors''
                                          then Some (Exception ''503'') else None),
            upload_folder_outcome = (\<lambda>n. None)\<rparr>
          \<lparr>model_type = ''lora'', output_dir = ''out'', repo_id = ''r'', created_repo_id = ''r''\<rparr>
          [(''prompt'', Single ''img'')] False None []) = Inr ()
   \<and> attempt_results
        \<lparr>model_type = ''lora'', output_dir = ''out'', repo_id = ''r'', created_repo_id = ''r''\<rparr>
        (snd (upload_model
          \<lparr>card_outcome = None, image_save_outcome = (\<lambda>p. None),
            upload_file_outcome = (\<lambda>p n. if p = ''/pytorch_lora_weights.safetensors''
                                          then Some (Exception ''503'') else None),
            upload_folder_outcome = (\<lambda>n. None)\<rparr>
          \<lparr>model_type = ''lora'', output_dir = ''out'', repo_id = ''r'', created_repo_id = ''r''\<rparr>
          [(''prompt'', Single ''img'')] False None []))
      = [Some (Exception ''503''), Some (Exception ''503''), Some (Exception ''503'')]"
proof -
  let ?envA = "\<lparr>card_outcome = None, image_save_outcome = (\<lambda>p. None),
            upload_file_outcome = (\<lambda>p n. None),
            upload_folder_outcome = (\<lambda>n. if n < 2 then Some (Exception ''503'') else None)\<rparr>"
  let ?mA = "\<lparr>model_type = ''full'', output_dir = ''out'', repo_id = ''r'', created_repo_id = ''r''\<rparr>"
  let ?envB = "\<lparr>card_outcome = None, image_save_outcome = (\<lambda>p. None),
            upload_file_outcome = (\<lambda>p n. if p = ''/pytorch_lora_weights.safetensors''
                                          then Some (Exception ''503'') else None),
            upload_folder_outcome = (\<lambda>n. None)\<rparr>"
  let ?mB = "\<lparr>model_type = ''lora'', output_dir = ''out'', repo_id = ''r'', created_repo_id = ''r''\<rparr>"
  have A: "card_outcome ?envA = None" "\<forall>q. image_save_outcome ?envA q = None"
    "\<forall>q n. \<not> uncaught (upload_file_outcome ?envA q n)"
    by (simp_all add: uncaught_def)
  have B: "card_outcome ?envB = None" "\<forall>q. image_save_outcome ?envB q = None"
    "\<forall>q n. \<not> uncaught (upload_file_outcome ?envB q n)"
    by (simp_all add: uncaught_def)
  have full: "\<not> contains (model_type ?mA) ''lora''" by (simp add: startswith_def)
  have lora: "contains (model_type ?mB) ''lora''" by (simp add: startswith_def)
  have woA: "weight_upload_outcome ?envA ?mA n = (if n < 2 then Some (Exception ''503'') else None)" for n
    using full by (simp add: weight_upload_outcome_def)
  have woB: "weight_upload_outcome ?envB ?mB n = Some (Exception ''503'')" for n
    using lora by (simp add: weight_upload_outcome_def)
  show ?thesis
    using upload_model_three_attempts [OF A, where m = ?mA and w = True and ov = None
        and imgs = "[(''prompt'', Single ''img'')]", THEN conjunct1]
      upload_model_three_attempts [OF B, where m = ?mB and w = False and ov = None
        and imgs = "[(''prompt'', Single ''img'')]", THEN conjunct2]
      full
    unfolding woA woB by (simp add: failed_def)
qed

lemma model_upload_attempts_returns:
  assumes folder: "\<forall>n. \<not> uncaught (upload_folder_outcome env n)"
    and ok: "\<forall>q n. \<not> uncaught (upload_file_outcome env q n)"
  shows "\<exists>evs. model_upload_attempts env m w ov a log = (Inr (), log @ evs)"
proof (induction "3 - a" arbitrary: a log)
  case 0
  then have "\<not> a < 3" by simp
  then show ?case by (simp add: attempts_exhausted)
next
  case (Suc k)
  then have a: "a < 3" and k: "k = 3 - (a + 1)" by simp_all
  have next_attempt:
    "\<exists>evs. model_upload_attempts env m w ov (a + 1) (send w msg (log @ new)) = (Inr (), log @ evs)"
    for msg new
  proof -
    from Suc(1) [OF k, of "send w msg (log @ new)"] obtain evs where
      "model_upload_attempts env m w ov (a + 1) (send w msg (log @ new))
         = (Inr (), send w msg (log @ new) @ evs)" by blast
    then show ?thesis by (cases w) (simp_all add: send_def)
  qed
  show ?case
  proof (cases "contains (model_type m) ''lora''")
    case False
    let ?r = "upload_folder_outcome env (length (filter is_upload_folder log))"
    show ?thesis
    proof (cases ?r)
      case None
      with a False show ?thesis
        by (subst model_upload_attempts.simps)
           (simp add: upload_full_model_def upload_folder_def Let_def raised_def)
    next
      case (Some e)
      with folder [rule_format, of "length (filter is_upload_folder log)"]
      have e: "is_Exception e" by (simp add: uncaught_def)
      show ?thesis
        using a False Some e next_attempt
        by (subst model_upload_attempts.simps)
           (simp add: upload_full_model_def upload_folder_def Let_def raised_def)
    qed
  next
    case True
    let ?r1 = "upload_file_outcome env ''/pytorch_lora_weights.safetensors''
                 (length (filter (is_upload_of ''/pytorch_lora_weights.safetensors'') log))"
    show ?thesis
    proof (cases ?r1)
      case (Some e)
      with ok [rule_format, of "''/pytorch_lora_weights.safetensors''"
          "length (filter (is_upload_of ''/pytorch_lora_weights.safetensors'') log)"]
      have e: "is_Exception e" by (simp add: uncaught_def)
      show ?thesis
        using a True Some e next_attempt
        by (subst model_upload_attempts.simps)
           (simp add: upload_lora_model_def upload_file_def Let_def raised_def)
    next
      case None
      let ?r2 = "upload_file_outcome env ''/README.md''
                   (length (filter (is_upload_of ''/README.md'') log))"
      show ?thesis
      proof (cases ?r2)
        case r2: None
        with a True None show ?thesis
          by (subst model_upload_attempts.simps)
             (simp add: upload_lora_model_def upload_file_def Let_def raised_def)
      next
        case r2: (Some e)
        with ok [rule_format, of "''/README.md''" "length (filter (is_upload_of ''/README.md'') log)"]
        have e: "is_Exception e" by (simp add: uncaught_def)
        show ?thesis
          using a True None r2 e
            next_attempt [of "model_error_message (a + 1) e"
              "[UploadFile ''/pytorch_lora_weights.safetensors''
                  (path_join (py_or ov (output_dir m)) ''pytorch_lora_weights.safetensors'') None,
                UploadFile ''/README.md'' (path_join (py_or ov (output_dir m)) ''README.md'') (Some e)]"]
          by (subst model_upload_attempts.simps)
             (simp add: upload_lora_model_def upload_file_def Let_def raised_def)
      qed
    qed
  qed
qed

text \<open>
  C10. With a webhook handler, and provided the model card and the validation images go
  through, \<^verbatim>\<open>upload_model\<close> returns and the last thing it does is to send the message
  that the model is now available, whatever the weight uploads answered: also in the
  run where all three attempts raised.
\<close>

theorem available_message_sent_whatever_the_outcome:
  assumes "card_outcome env = None"
    and "\<forall>q. image_save_outcome env q = None"
    and "\<forall>q n. \<not> uncaught (upload_file_outcome env q n)"
    and "\<forall>n. \<not> uncaught (upload_folder_outcome env n)"
  shows "fst (upload_model env m imgs True ov []) = Inr ()
    \<and> last (snd (upload_model env m imgs True ov [])) = Send (available_message m)"
proof -
  from upload_model_before_attempts [OF assms(1-3), of m imgs True ov] obtain log2 where
    log2: "upload_model env m imgs True ov []
         = (case model_upload_attempts env m True ov 0 log2 of
              (Inl e, log3) \<Rightarrow> (Inl e, log3)
            | (Inr u, log3) \<Rightarrow> (Inr (), send True (available_message m) log3))"
    by blast
  from model_upload_attempts_returns [OF assms(4,3), of m True ov 0 log2] obtain evs where
    "model_upload_attempts env m True ov 0 log2 = (Inr (), log2 @ evs)" by blast
  with log2 show ?thesis by (simp add: send_def)
qed

theorem available_message_sent_whatever_the_outcome_witness:
  "attempt_results
      \<lparr>model_type = ''full'', output_dir = ''out'', repo_id = ''me/model'', created_repo_id = ''me/model''\<rparr>
      (snd (upload_model
          \<lparr>card_outcome = None, image_save_outcome = (\<lambda>p. None),
            upload_file_outcome = (\<lambda>p n. None),
            upload_folder_outcome = (\<lambda>n. Some (Exception ''503''))\<rparr>
          \<lparr>model_type = ''full'', output_dir = ''out'', repo_id = ''me/model'', created_repo_id = ''me/model''\<rparr>
          [] True None []))
     = [Some (Exception ''503''), Some (Exception ''503''), Some (Exception ''503'')]
   \<and> fst (upload_model
          \<lparr>card_outcome = None, image_save_outcome = (\<lambda>p. None),
            upload_file_outcome = (\<lambda>p n. None),
            upload_folder_outcome = (\<lambda>n. Some (Exception ''503''))\<rparr>
          \<lparr>model_type = ''full'', output_dir = ''out'', repo_id = ''me/model'', created_repo_id = ''me/model''\<rparr>
          [] True None []) = Inr ()
   \<and> last (snd (upload_model
          \<lparr>card_outcome = None, image_save_outcome = (\<lambda>p. None),
            upload_file_outcome = (\<lambda>p n. None),
            upload_folder_outcome = (\<lambda>n. Some (Exception ''503''))\<rparr>
          \<lparr>model_type = ''full'', output_dir = ''out'', repo_id = ''me/model'', created_repo_id = ''me/model''\<rparr>
          [] True None []))
     = Send ''Model is now available [on Hugging Face Hub](https://huggingface.co/me/model).''"
proof -
  let ?env = "\<lparr>card_outcome = None, image_save_outcome = (\<lambda>p. None),
            upload_file_outcome = (\<lambda>p n. None),
            upload_folder_outcome = (\<lambda>n. Some (Exception ''503''))\<rparr>"
  let ?m = "\<lparr>model_type = ''full'', output_dir = ''out'', repo_id = ''me/model'', created_repo_id = ''me/model''\<rparr>"
  have h: "card_outcome ?env = None" "\<forall>q. image_save_outcome ?env q = None"
    "\<forall>q n. \<not> uncaught (upload_file_outcome ?env q n)"
    "\<forall>n. \<not> uncaught (upload_folder_outcome ?env n)"
    by (simp_all add: uncaught_def)
  have results: "attempt_results ?m (snd (upload_model ?env ?m [] True None []))
     = [Some (Exception ''503''), Some (Exception ''503''), Some (Exception ''503'')]"
    by (simp add: upload_model_def upload_validation_images_def save_model_card_def raised_def
        send_def Let_def model_upload_attempts.simps upload_full_model_def upload_folder_def
        startswith_def)
  show ?thesis
    using available_message_sent_whatever_the_outcome [OF h, where m = ?m and imgs = "[]" and ov = None]
      results
    by (simp add: available_message_def)
qed

section \<open>Loading a checkpoint\<close>

lemma load_models_all:
  assumes "\<forall>sub. from_pretrained env input_dir sub = Inr (ld sub)"
    and "\<forall>model cfg. register_to_config_outcome env model cfg = None"
    and "\<forall>model sd. load_state_dict_outcome env model sd = None"
  shows "load_models env input_dir models loaded
           = (Inr (), [], loaded @ map (reloaded ld) (rev models))"
proof (induction models arbitrary: loaded rule: rev_induct)
  case Nil
  show ?case by (subst load_models.simps) simp
next
  case (snoc model models)
  obtain cfg sd where ld: "ld (if model_class model = TextEncoder then ''text_encoder'' else ''unet'') = (cfg, sd)"
    by (cases "ld (if model_class model = TextEncoder then ''text_encoder'' else ''unet'')")
  show ?case
    using assms ld snoc [of "loaded @ [model\<lparr>config := cfg, state_dict := sd\<rparr>]"]
    by (subst load_models.simps) (simp add: Let_def reloaded_def)
qed

text \<open>
  When \<^verbatim>\<open>load_state_dict\<close> raises for a model, the hook raises, with or without the
  training state file: the model is left with its new configuration and its old weights.
\<close>

lemma load_state_dict_error_propagates:
  "load_model_hook
     \<lparr>path_exists = (\<lambda>p. False), load_training_state = (\<lambda>p. Inl (Exception ''no such file'')),
       from_pretrained = (\<lambda>d sub. Inr (''config of '' @ sub, ''weights of '' @ sub)),
       register_to_config_outcome = (\<lambda>model cfg. None),
       load_state_dict_outcome = (\<lambda>model sd. Some (Exception ''size mismatch''))\<rparr>
     [\<lparr>model_class = UNet, config = ''c0'', state_dict = ''w0''\<rparr>]
     ''out/checkpoint-10''
     \<lparr>training_state = ''step 0'', warnings = []\<rparr>
   = (Inl (Exception ''size mismatch''),
      \<lparr>training_state = ''step 0'',
        warnings = [''Could not find training_state.json in checkpoint dir out/checkpoint-10'']\<rparr>,
      [],
      [\<lparr>model_class = UNet, config = ''config of unet'', state_dict = ''w0''\<rparr>])"
  by (simp add: load_model_hook_def load_models.simps path_join_def startswith_def
      missing_state_warning_def Let_def)

text \<open>
  C9. When every model loads (\<^verbatim>\<open>from_pretrained\<close>, \<^verbatim>\<open>register_to_config\<close> and
  \<^verbatim>\<open>load_state_dict\<close> do not raise), a checkpoint directory without
  \<^verbatim>\<open>training_state.json\<close> is
  not an error for \<^verbatim>\<open>load_model_hook\<close>: it logs a warning, leaves the training state as
  it was, raises nothing and loads every model (last first, emptying the list). When the
  file exists, the training state becomes what \<^verbatim>\<open>load_training_state\<close> restores from it.
\<close>

theorem missing_training_state_is_recoverable:
  assumes "\<forall>sub. from_pretrained env input_dir sub = Inr (ld sub)"
    and "\<forall>model cfg. register_to_config_outcome env model cfg = None"
    and "\<forall>model sd. load_state_dict_outcome env model sd = None"
  shows "(\<not> path_exists env (path_join input_dir ''training_state.json'')
          \<longrightarrow> load_model_hook env models input_dir st
                = (Inr (), st\<lparr>warnings := warnings st @ [missing_state_warning input_dir]\<rparr>,
                   [], map (reloaded ld) (rev models)))
       \<and> (path_exists env (path_join input_dir ''training_state.json'')
            \<and> load_training_state env (path_join input_dir ''training_state.json'') = Inr ts
          \<longrightarrow> load_model_hook env models input_dir st
                = (Inr (), st\<lparr>training_state := ts\<rparr>, [], map (reloaded ld) (rev models)))"
  by (simp add: load_model_hook_def Let_def load_models_all [OF assms])

theorem missing_training_state_is_recoverable_witness:
  "load_model_hook
     \<lparr>path_exists = (\<lambda>p. False), load_training_state = (\<lambda>p. Inl (Exception ''no such file'')),
       from_pretrained = (\<lambda>d sub. Inr (''config of '' @ sub, ''weights of '' @ sub)),
       register_to_config_outcome = (\<lambda>model cfg. None),
       load_state_dict_outcome = (\<lambda>model sd. None)\<rparr>
     [\<lparr>model_class = UNet, config = ''c0'', state_dict = ''w0''\<rparr>,
      \<lparr>model_class = TextEncoder, config = ''c1'', state_dict = ''w1''\<rparr>]
     ''out/checkpoint-10''
     \<lparr>training_state = ''step 0'', warnings = []\<rparr>
   = (Inr (),
      \<lparr>training_state = ''step 0'',
        warnings = [''Could not find training_state.json in checkpoint dir out/checkpoint-10'']\<rparr>,
      [],
      [\<lparr>model_class = TextEncoder, config = ''config of text_encoder'',
         state_dict = ''weights of text_encoder''\<rparr>,
       \<lparr>model_class = UNet, config = ''config of unet'', state_dict = ''weights of unet''\<rparr>])
   \<and> load_model_hook
     \<lparr>path_exists = (\<lambda>p. p = ''out/checkpoint-10/training_state.json''),
       load_training_state = (\<lambda>p. Inr ''step 10''),
       from_pretrained = (\<lambda>d sub. Inr (''config of '' @ sub, ''weights of '' @ sub)),
       register_to_config_outcome = (\<lambda>model cfg. None),
       load_state_dict_outcome = (\<lambda>model sd. None)\<rparr>
     [\<lparr>model_class = UNet, config = ''c0'', state_dict = ''w0''\<rparr>]
     ''out/checkpoint-10''
     \<lparr>training_state = ''step 0'', warnings = []\<rparr>
   = (Inr (),
      \<lparr>training_state = ''step 10'', warnings = []\<rparr>,
      [],
      [\<lparr>model_class = UNet, config = ''config of unet'', state_dict = ''weights of unet''\<rparr>])"
proof -
  let ?ld = "\<lambda>sub. (''config of '' @ sub, ''weights of '' @ sub)"
  let ?env1 = "\<lparr>path_exists = (\<lambda>p. False), load_training_state = (\<lambda>p. Inl (Exception ''no such file'')),
       from_pretrained = (\<lambda>d sub. Inr (?ld sub)),
       register_to_config_outcome = (\<lambda>model cfg. None),
       load_state_dict_outcome = (\<lambda>model sd. None)\<rparr>"
  let ?env2 = "\<lparr>path_exists = (\<lambda>p. p = ''out/checkpoint-10/training_state.json''),
       load_training_state = (\<lambda>p. Inr ''step 10''),
       from_pretrained = (\<lambda>d sub. Inr (?ld sub)),
       register_to_config_outcome = (\<lambda>model cfg. None),
       load_state_dict_outcome = (\<lambda>model sd. None)\<rparr>"
  have h1: "\<forall>sub. from_pretrained ?env1 ''out/checkpoint-10'' sub = Inr (?ld sub)" by simp
  have h2: "\<forall>sub. from_pretrained ?env2 ''out/checkpoint-10'' sub = Inr (?ld sub)" by simp
  have r1: "\<forall>model cfg. register_to_config_outcome ?env1 model cfg = None" by simp
  have r2: "\<forall>model cfg. register_to_config_outcome ?env2 model cfg = None" by simp
  have l1: "\<forall>model sd. load_state_dict_outcome ?env1 model sd = None" by simp
  have l2: "\<forall>model sd. load_state_dict_outcome ?env2 model sd = None" by simp
  show ?thesis
    using missing_training_state_is_recoverable [OF h1 r1 l1,
        where models = "[\<lparr>model_class = UNet, config = ''c0'', state_dict = ''w0''\<rparr>,
                         \<lparr>model_class = TextEncoder, config = ''c1'', state_dict = ''w1''\<rparr>]"
          and st = "\<lparr>training_state = ''step 0'', warnings = []\<rparr>", THEN conjunct1]
      missing_training_state_is_recoverable [OF h2 r2 l2,
        where models = "[\<lparr>model_class = UNet, config = ''c0'', state_dict = ''w0''\<rparr>]"
          and st = "\<lparr>training_state = ''step 0'', warnings = []\<rparr>" and ts = "''step 10''",
        THEN conjunct2]
    by (simp add: path_join_def startswith_def reloaded_def missing_state_warning_def Let_def)
qed

section \<open>Checkpoint retention\<close>

lemma digit_not_space: "is_digit c \<Longrightarrow> \<not> is_space c"
  by (simp add: is_digit_def is_space_def)

lemma digit_not_sign: "is_digit c \<Longrightarrow> c \<noteq> CHR ''+'' \<and> c \<noteq> CHR ''-''"
  by (auto simp: is_digit_def)

lemma strip_digits:
  assumes "ds \<noteq> []" "list_all is_digit ds"
  shows "strip ds = ds"
proof -
  have "is_digit (hd ds)" "is_digit (last ds)"
    using assms by (simp_all add: list_all_iff)
  then have "\<not> is_space (hd ds)" "\<not> is_space (hd (rev ds))"
    using assms(1) by (simp_all add: digit_not_space hd_rev)
  then have "dropWhile is_space ds = ds" "dropWhile is_space (rev ds) = rev ds"
    by (simp_all add: dropWhile_eq_self_iff)
  then show ?thesis by (simp add: strip_def)
qed

lemma parse_digits_all:
  "list_all is_digit ds \<Longrightarrow>
     parse_digits prev acc ds =
       (if ds = [] \<and> \<not> prev then None
        else Some (foldl (\<lambda>a c. 10 * a + digit_val c) acc ds))"
  by (induction ds arbitrary: prev acc) simp_all

lemma py_int_digits:
  assumes "ds \<noteq> []" "list_all is_digit ds"
  shows "py_int ds = Some (int (decimal_value ds))"
proof -
  obtain c cs where ds: "ds = c # cs" using assms(1) by (cases ds) auto
  then have "is_digit c" using assms(2) by simp
  then have sign: "c \<noteq> CHR ''+''" "c \<noteq> CHR ''-''" using digit_not_sign by blast+
  have "parse_digits False 0 ds = Some (decimal_value ds)"
    using parse_digits_all [OF assms(2), of False 0] assms(1) by (simp add: decimal_value_def)
  moreover have "py_int ds = map_option int (parse_digits False 0 ds)"
    unfolding py_int_def strip_digits [OF assms] using sign by (simp add: ds)
  ultimately show ?thesis by simp
qed

lemma checkpoint_named_decompose:
  "checkpoint_named d \<Longrightarrow> d = ''checkpoint'' @ CHR ''-'' # drop 11 d"
  using append_take_drop_id [of 11 d] by (simp add: checkpoint_named_def)

lemma checkpoint_named_split:
  assumes "checkpoint_named d"
  shows "split_on (CHR ''-'') d = [''checkpoint'', drop 11 d]"
proof -
  let ?ds = "drop 11 d"
  have d: "d = ''checkpoint'' @ CHR ''-'' # ?ds"
    using assms by (rule checkpoint_named_decompose)
  have "CHR ''-'' \<notin> set ?ds"
    using assms digit_not_sign by (auto simp: checkpoint_named_def list_all_iff)
  then have "split_on (CHR ''-'') ?ds = [?ds]" by (rule split_on_no_sep)
  moreover have "split_on (CHR ''-'') (''checkpoint'' @ CHR ''-'' # ?ds)
          = ''checkpoint'' # split_on (CHR ''-'') ?ds"
    by (rule split_on_append_sep) simp
  ultimately show ?thesis using d by metis
qed

lemma checkpoint_key_named:
  "checkpoint_named d \<Longrightarrow> checkpoint_key d = Inr (int (suffix_value d))"
  by (simp add: checkpoint_key_def checkpoint_named_split Let_def py_int_digits
      suffix_value_def checkpoint_named_def)

lemma checkpoint_named_startswith:
  assumes "checkpoint_named d"
  shows "startswith d ''checkpoint''"
proof -
  have "startswith (''checkpoint'' @ CHR ''-'' # drop 11 d) ''checkpoint''"
    by (simp add: startswith_def)
  then show ?thesis using checkpoint_named_decompose [OF assms] by simp
qed

lemma keyed_named:
  "list_all checkpoint_named cps \<Longrightarrow> keyed cps = Inr (map (\<lambda>d. (int (suffix_value d), d)) cps)"
  by (induction cps) (simp_all add: checkpoint_key_named)

lemma insort_key_paired:
  "\<forall>p\<in>set ps. fst p = f (snd p) \<Longrightarrow>
     map snd (insort_key fst (f x, x) ps) = insort_key f x (map snd ps)"
  by (induction ps) auto

lemma sort_key_paired: "map snd (sort_key fst (map (\<lambda>d. (f d, d)) xs)) = sort_key f xs"
proof (induction xs)
  case Nil
  show ?case by simp
next
  case (Cons x xs)
  have "\<forall>p\<in>set (sort_key fst (map (\<lambda>d. (f d, d)) xs)). fst p = f (snd p)" by auto
  from insort_key_paired [OF this, of x] Cons show ?case by simp
qed

lemma sorted_by_key_named:
  "list_all checkpoint_named cps \<Longrightarrow>
     sorted_by_key cps = Inr (sort_key (\<lambda>d. int (suffix_value d)) cps)"
  by (simp add: sorted_by_key_def keyed_named sort_key_paired)

lemma fold_rmtree: "fold rmtree rs fs = filter (\<lambda>d. d \<notin> set rs) fs"
proof (induction rs arbitrary: fs)
  case Nil
  show ?case by simp
next
  case (Cons r rs)
  have "removeAll r fs = filter (\<lambda>d. d \<noteq> r) fs"
    by (induction fs) auto
  then show ?case using Cons by (simp add: rmtree_def conj_commute)
qed

lemma retention_step_named:
  assumes "list_all checkpoint_named cps"
  shows "retention_step (Some limit) cps =
     Inr (if int (length cps) \<ge> limit
          then filter (\<lambda>d. d \<notin> set (take (nat (int (length cps) - limit + 1))
                                          (sort_key (\<lambda>d. int (suffix_value d)) cps))) cps
          else cps)"
proof -
  have "filter (\<lambda>d. startswith d ''checkpoint'') cps = cps"
    using assms by (simp add: list_all_iff checkpoint_named_startswith)
  then show ?thesis
    by (simp add: retention_step_def sorted_by_key_named [OF assms] fold_rmtree Let_def)
qed


lemma older_before_newer:
  assumes sorted: "sorted (map f s)" and x: "x \<in> set (take r s)" and y: "y \<in> set (drop r s)"
  shows "f x \<le> f y"
proof -
  have "sorted (map f (take r s) @ map f (drop r s))"
    using sorted by (simp flip: map_append)
  then show ?thesis using x y by (simp add: sorted_append)
qed

text \<open>
  One pass of the retention step on a listing that does not hold the new checkpoint yet,
  followed by the addition of the new checkpoint, does what the comments in the hook
  announce. Let the listing hold directories named \<^verbatim>\<open>checkpoint-<n>\<close> with distinct
  numeric suffixes, let the limit \<open>L\<close> be positive, and let the new checkpoint carry a
  step number greater than theirs. Then the pass does not raise, and afterwards exactly
  \<open>min L (count + 1)\<close> checkpoints are there, all different; every checkpoint that is gone
  has a smaller numeric suffix than every checkpoint that is left.
\<close>

lemma single_pass_keeps_most_recent:
  assumes named: "list_all checkpoint_named cps"
    and dist: "distinct (map suffix_value cps)"
    and L: "0 < L"
    and new_named: "checkpoint_named new"
    and newest: "\<forall>d\<in>set cps. suffix_value d < suffix_value new"
  shows "\<exists>kept. retention_step (Some (int L)) cps = Inr kept
    \<and> length (add_checkpoint new kept) = min L (length cps + 1)
    \<and> distinct (add_checkpoint new kept)
    \<and> set (add_checkpoint new kept) \<subseteq> set (new # cps)
    \<and> (\<forall>x\<in>set (new # cps) - set (add_checkpoint new kept).
          \<forall>y\<in>set (add_checkpoint new kept). suffix_value x < suffix_value y)"
proof -
  define n where "n = length cps"
  define s where "s = sort_key (\<lambda>d. int (suffix_value d)) cps"
  define r where "r = (if L \<le> n then n - L + 1 else 0)"
  define kept where "kept = filter (\<lambda>d. d \<notin> set (take r s)) cps"
  have step: "retention_step (Some (int L)) cps = Inr kept"
  proof (cases "L \<le> n")
    case True
    then have "nat (int (length cps) - int L + 1) = r" by (simp add: r_def n_def)
    then show ?thesis
      using True by (simp add: retention_step_named [OF named] kept_def s_def n_def)
  next
    case False
    then show ?thesis
      by (simp add: retention_step_named [OF named] kept_def r_def n_def)
  qed
  have dcps: "distinct cps" and inj: "inj_on suffix_value (set cps)"
    using dist by (simp_all add: distinct_map)
  have s: "distinct s" "set s = set cps" "length s = n"
      "sorted (map (\<lambda>d. int (suffix_value d)) s)"
    using dcps by (simp_all add: s_def n_def)
  have disjoint: "set (take r s) \<inter> set (drop r s) = {}"
    using s(1) by (rule set_take_disj_set_drop_if_distinct) simp
  have "set (take r s) \<union> set (drop r s) = set s"
    using set_append [of "take r s" "drop r s"] by simp
  with disjoint s(2) have set_kept: "set kept = set (drop r s)"
    by (auto simp: kept_def)
  have dkept: "distinct kept" using dcps by (simp add: kept_def)
  have "length kept = card (set kept)" using dkept by (simp add: distinct_card)
  also have "\<dots> = length (drop r s)" using s(1) by (simp add: set_kept distinct_card)
  finally have len_kept: "length kept = n - r" using s(3) by simp
  have new_notin: "new \<notin> set cps" using newest by auto
  then have new_notin_kept: "new \<notin> set kept" by (simp add: kept_def)
  then have final: "add_checkpoint new kept = kept @ [new]" by (simp add: add_checkpoint_def)
  have "length (kept @ [new]) = min L (length cps + 1)"
    using len_kept L by (auto simp: r_def n_def)
  moreover have "distinct (kept @ [new])" using dkept new_notin_kept by simp
  moreover have "set (kept @ [new]) \<subseteq> set (new # cps)" by (auto simp: kept_def)
  moreover have "\<forall>x\<in>set (new # cps) - set (kept @ [new]).
                   \<forall>y\<in>set (kept @ [new]). suffix_value x < suffix_value y"
  proof (intro ballI)
    fix x y
    assume "x \<in> set (new # cps) - set (kept @ [new])" and y: "y \<in> set (kept @ [new])"
    then have x: "x \<in> set cps" "x \<in> set (take r s)" by (auto simp: kept_def)
    show "suffix_value x < suffix_value y"
    proof (cases "y = new")
      case True
      then show ?thesis using newest x(1) by simp
    next
      case False
      then have yd: "y \<in> set (drop r s)" using y set_kept by simp
      then have ycps: "y \<in> set cps" using s(2) by (auto dest: in_set_dropD)
      have "int (suffix_value x) \<le> int (suffix_value y)"
        using s(4) x(2) yd by (rule older_before_newer)
      moreover have "x \<noteq> y" using disjoint x(2) yd by auto
      then have "suffix_value x \<noteq> suffix_value y"
        using inj x(1) ycps by (auto dest: inj_onD)
      ultimately show ?thesis by simp
    qed
  qed
  ultimately show ?thesis using step final by auto
qed

text \<open>
  C1. After the retention step of the save hook and the new checkpoint, exactly
  \<open>min L (count + 1)\<close> checkpoints are to be left, the most recent ones. The hook does
  not do that. It writes the training state into the new checkpoint directory first and
  then runs the retention step once for each model, the new directory being among the
  entries it counts. With the three checkpoints 10, 9 and 100, the limit 2 and the new
  checkpoint 101, the hook leaves \<^verbatim>\<open>checkpoint-101\<close> alone, for one model as for two,
  where one pass before the new checkpoint exists would leave 100 and 101. With the
  limit 4 it leaves three. On the LoRA path the hook returns before the retention step
  and all four stay, beyond the limit 2.
\<close>

theorem save_model_hook_keeps_too_few:
  "entries (snd (save_model_hook
      \<lparr>save_training_state_outcome = None, save_pretrained_outcome = (\<lambda>p. None),
        save_lora_weights_outcome = None\<rparr>
      ''full'' (Some 2) ''out'' False
      [\<lparr>model_class = UNet, config = ''c0'', state_dict = ''w0''\<rparr>]
      ''checkpoint-101''
      \<lparr>entries = [''checkpoint-10'', ''checkpoint-9'', ''checkpoint-100''], written = [],
        weights = [''w0'']\<rparr>))
     = [''checkpoint-101'']
   \<and> entries (snd (save_model_hook
      \<lparr>save_training_state_outcome = None, save_pretrained_outcome = (\<lambda>p. None),
        save_lora_weights_outcome = None\<rparr>
      ''full'' (Some 2) ''out'' False
      [\<lparr>model_class = UNet, config = ''c0'', state_dict = ''w0''\<rparr>,
       \<lparr>model_class = TextEncoder, config = ''c1'', state_dict = ''w1''\<rparr>]
      ''checkpoint-101''
      \<lparr>entries = [''checkpoint-10'', ''checkpoint-9'', ''checkpoint-100''], written = [],
        weights = [''w0'', ''w1'']\<rparr>))
     = [''checkpoint-101'']
   \<and> retention_step (Some 2) [''checkpoint-10'', ''checkpoint-9'', ''checkpoint-100'']
     = Inr [''checkpoint-100'']
   \<and> add_checkpoint ''checkpoint-101'' [''checkpoint-100'']
     = [''checkpoint-100'', ''checkpoint-101'']
   \<and> entries (snd (save_model_hook
      \<lparr>save_training_state_outcome = None, save_pretrained_outcome = (\<lambda>p. None),
        save_lora_weights_outcome = None\<rparr>
      ''full'' (Some 4) ''out'' False
      [\<lparr>model_class = UNet, config = ''c0'', state_dict = ''w0''\<rparr>]
      ''checkpoint-101''
      \<lparr>entries = [''checkpoint-10'', ''checkpoint-9'', ''checkpoint-100''], written = [],
        weights = [''w0'']\<rparr>))
     = [''checkpoint-10'', ''checkpoint-100'', ''checkpoint-101'']
   \<and> entries (snd (save_model_hook
      \<lparr>save_training_state_outcome = None, save_pretrained_outcome = (\<lambda>p. None),
        save_lora_weights_outcome = None\<rparr>
      ''lora'' (Some 2) ''out'' False
      [\<lparr>model_class = UNet, config = ''c0'', state_dict = ''w0''\<rparr>]
      ''checkpoint-101''
      \<lparr>entries = [''checkpoint-10'', ''checkpoint-9'', ''checkpoint-100''], written = [],
        weights = [''w0'']\<rparr>))
     = [''checkpoint-10'', ''checkpoint-9'', ''checkpoint-100'', ''checkpoint-101'']"
  by (simp add: save_model_hook_def save_training_state_def add_checkpoint_def
      retention_step_def startswith_def sorted_by_key_def checkpoint_key_def
      py_int_def strip_def is_space_def is_digit_def digit_val_def rmtree_def Let_def
      path_join_def)

end
